theory Spec2Isabelle
  imports Complex_Main "HOL-Library.Multiset"
begin

section \<open>JavaScript values\<close>

text \<open>
  Cell values are JavaScript primitives. Numbers are modelled as integers (every integer
  of magnitude below \<open>2^53\<close> is a double and is compared exactly); \<open>NaN\<close> and the
  infinities only arise as results of conversions and of cost arithmetic, which is why
  \<open>jsnum\<close> is a type of its own. Strings are compared by their characters' codes.
\<close>

datatype jsval = Undefined | Null | Bool bool | Num int | Str string

datatype jsnum = NaN | NegInf | Fin rat | PosInf

fun num_eq :: "jsnum \<Rightarrow> jsnum \<Rightarrow> bool" where
  "num_eq NaN _ = False"
| "num_eq _ NaN = False"
| "num_eq (Fin a) (Fin b) = (a = b)"
| "num_eq NegInf NegInf = True"
| "num_eq PosInf PosInf = True"
| "num_eq _ _ = False"

fun num_lt :: "jsnum \<Rightarrow> jsnum \<Rightarrow> bool" where
  "num_lt NaN _ = False"
| "num_lt _ NaN = False"
| "num_lt (Fin a) (Fin b) = (a < b)"
| "num_lt NegInf NegInf = False"
| "num_lt NegInf _ = True"
| "num_lt PosInf _ = False"
| "num_lt (Fin a) NegInf = False"
| "num_lt (Fin a) PosInf = True"

definition num_gt :: "jsnum \<Rightarrow> jsnum \<Rightarrow> bool" where
  "num_gt a b = num_lt b a"

fun num_add :: "jsnum \<Rightarrow> jsnum \<Rightarrow> jsnum" where
  "num_add NaN _ = NaN"
| "num_add _ NaN = NaN"
| "num_add (Fin a) (Fin b) = Fin (a + b)"
| "num_add PosInf NegInf = NaN"
| "num_add NegInf PosInf = NaN"
| "num_add PosInf _ = PosInf"
| "num_add _ PosInf = PosInf"
| "num_add NegInf _ = NegInf"
| "num_add _ NegInf = NegInf"

fun num_neg :: "jsnum \<Rightarrow> jsnum" where
  "num_neg NaN = NaN"
| "num_neg (Fin a) = Fin (- a)"
| "num_neg PosInf = NegInf"
| "num_neg NegInf = PosInf"

definition num_sub :: "jsnum \<Rightarrow> jsnum \<Rightarrow> jsnum" where
  "num_sub a b = num_add a (num_neg b)"

text \<open>The sign of a number: \<open>1\<close>, \<open>-1\<close>, or \<open>0\<close> for zero and \<open>NaN\<close>.\<close>

fun num_sgn :: "jsnum \<Rightarrow> int" where
  "num_sgn NaN = 0"
| "num_sgn (Fin a) = (if a < 0 then -1 else if a = 0 then 0 else 1)"
| "num_sgn PosInf = 1"
| "num_sgn NegInf = -1"

fun num_mul :: "jsnum \<Rightarrow> jsnum \<Rightarrow> jsnum" where
  "num_mul NaN _ = NaN"
| "num_mul _ NaN = NaN"
| "num_mul (Fin a) (Fin b) = Fin (a * b)"
| "num_mul a b =
     (if num_sgn a * num_sgn b = 0 then NaN
      else if num_sgn a * num_sgn b < 0 then NegInf else PosInf)"

subsection \<open>String to number conversion\<close>

text \<open>
  The nearest double of a rational, ties to the even significand: \<open>bitlen\<close> counts
  the binary digits of a positive integer, \<open>binary_exponent\<close> is the \<open>e\<close> with \<open>2^e \<le> q < 2^(e + 1)\<close>, not below the exponent \<open>-1022\<close> of the
  subnormal numbers; a double at that exponent is a multiple of \<open>2^(e - 52)\<close>; what
  rounds to \<open>2^1024\<close> or more is infinite. The two zeros are not told apart (no
  operation of the source does).
\<close>

function bitlen :: "int \<Rightarrow> int" where
  "bitlen n = (if n \<le> 0 then 0 else 1 + bitlen (n div 2))"
  by pat_completeness auto
termination
  by (relation "measure nat") auto

declare bitlen.simps [simp del]

definition pow2 :: "int \<Rightarrow> rat" where
  "pow2 e = (if 0 \<le> e then 2 ^ nat e else 1 / 2 ^ nat (- e))"

definition binary_exponent :: "rat \<Rightarrow> int" where
  "binary_exponent q =
     (let e0 = bitlen (fst (quotient_of q)) - bitlen (snd (quotient_of q))
      in if pow2 e0 \<le> q then e0 else e0 - 1)"

definition round_half_even :: "rat \<Rightarrow> int" where
  "round_half_even x =
     (let f = \<lfloor>x\<rfloor>; d = x - of_int f
      in if d < 1 / 2 then f else if 1 / 2 < d then f + 1 else if even f then f else f + 1)"

definition to_double :: "rat \<Rightarrow> jsnum" where
  "to_double q =
     (if q = 0 then Fin 0
      else
        (let a = \<bar>q\<bar>;
             e = max (binary_exponent a) (- 1022);
             ulp = pow2 (e - 52);
             m = of_int (round_half_even (a / ulp)) * ulp
         in if pow2 1024 \<le> m then (if q < 0 then NegInf else PosInf)
            else Fin (if q < 0 then - m else m)))"

text \<open>
  \<open>StringToNumber\<close> follows the grammar of the language's \<open>ToNumber\<close> on strings:
  surrounding white space and line terminators are dropped; the empty string is \<open>0\<close>;
  an optionally signed \<open>Infinity\<close>; an unsigned binary, octal or hexadecimal literal
  (\<open>0b...\<close>, \<open>0o...\<close>, \<open>0x...\<close>); an optionally signed decimal literal with optional
  fraction and exponent; anything else is \<open>NaN\<close>. The value is the mathematical value
  of the literal rounded to the nearest double, as engines compute it (the language
  would also allow a decimal literal to be rounded from its first 20 significant
  digits). A string is a list of 8-bit characters
  here, that is, of code units below \<open>256\<close>: among these the white space of the
  language is the tab, the line feed, the vertical tab, the form feed, the carriage
  return, the space and the no-break space.
\<close>

definition is_ws :: "char \<Rightarrow> bool" where
  "is_ws c = (of_char c \<in> set [9, 10, 11, 12, 13, 32, 160 :: nat])"

definition trim :: "string \<Rightarrow> string" where
  "trim s = rev (dropWhile is_ws (rev (dropWhile is_ws s)))"

definition is_digit :: "char \<Rightarrow> bool" where
  "is_digit c = (48 \<le> (of_char c :: nat) \<and> (of_char c :: nat) \<le> 57)"

definition digit_val :: "char \<Rightarrow> int" where
  "digit_val c = int (of_char c) - 48"

definition digits_val :: "string \<Rightarrow> int" where
  "digits_val ds = foldl (\<lambda>a c. 10 * a + digit_val c) 0 ds"

definition hex_val :: "char \<Rightarrow> int option" where
  "hex_val c =
     (let n = (of_char c :: nat) in
      if 48 \<le> n \<and> n \<le> 57 then Some (int n - 48)
      else if 65 \<le> n \<and> n \<le> 70 then Some (int n - 55)
      else if 97 \<le> n \<and> n \<le> 102 then Some (int n - 87)
      else None)"

text \<open>
  A literal in base \<open>2\<close>, \<open>8\<close> or \<open>16\<close> after its prefix: at least one digit, every
  digit below the base.
\<close>

definition radix_digits :: "int \<Rightarrow> string \<Rightarrow> bool" where
  "radix_digits base ds =
     (ds \<noteq> [] \<and> list_all (\<lambda>c. case hex_val c of Some d \<Rightarrow> d < base | None \<Rightarrow> False) ds)"

definition radix_val :: "int \<Rightarrow> string \<Rightarrow> int" where
  "radix_val base ds = foldl (\<lambda>a c. base * a + (case hex_val c of Some d \<Rightarrow> d | None \<Rightarrow> 0)) 0 ds"

definition radix_of_prefix :: "string \<Rightarrow> int option" where
  "radix_of_prefix p =
     (if p = ''0x'' \<or> p = ''0X'' then Some 16
      else if p = ''0o'' \<or> p = ''0O'' then Some 8
      else if p = ''0b'' \<or> p = ''0B'' then Some 2
      else None)"

text \<open>An exponent part: empty, or \<open>e\<close>/\<open>E\<close>, an optional sign and at least one digit.\<close>

definition exponent_val :: "string \<Rightarrow> int option" where
  "exponent_val s =
     (case s of
        [] \<Rightarrow> Some 0
      | c # t \<Rightarrow>
          if c = CHR ''e'' \<or> c = CHR ''E'' then
            (case t of
               [] \<Rightarrow> None
             | d # u \<Rightarrow>
                 if d = CHR ''+'' then (if u \<noteq> [] \<and> list_all is_digit u then Some (digits_val u) else None)
                 else if d = CHR ''-'' then (if u \<noteq> [] \<and> list_all is_digit u then Some (- digits_val u) else None)
                 else if list_all is_digit t then Some (digits_val t) else None)
          else None)"

definition pow10 :: "int \<Rightarrow> rat" where
  "pow10 e = (if 0 \<le> e then 10 ^ nat e else 1 / 10 ^ nat (- e))"

text \<open>An unsigned decimal literal: digits, optional fraction, optional exponent.\<close>

definition unsigned_decimal :: "string \<Rightarrow> rat option" where
  "unsigned_decimal s =
     (let ip = takeWhile is_digit s; r1 = dropWhile is_digit s;
          has_dot = (r1 \<noteq> [] \<and> hd r1 = CHR ''.'');
          r2 = (if has_dot then tl r1 else r1);
          fp = (if has_dot then takeWhile is_digit r2 else []);
          r3 = (if has_dot then dropWhile is_digit r2 else r2)
      in if ip = [] \<and> fp = [] then None
         else (case exponent_val r3 of
                 None \<Rightarrow> None
               | Some e \<Rightarrow>
                   Some ((of_int (digits_val ip) + of_int (digits_val fp) / 10 ^ length fp) * pow10 e)))"

definition StringToNumber :: "string \<Rightarrow> jsnum" where
  "StringToNumber s =
     (let t = trim s in
      if t = [] then Fin 0
      else if t = ''Infinity'' \<or> t = ''+Infinity'' then PosInf
      else if t = ''-Infinity'' then NegInf
      else
        (case radix_of_prefix (take 2 t) of
           Some base \<Rightarrow>
             if radix_digits base (drop 2 t) then to_double (of_int (radix_val base (drop 2 t)))
             else NaN
         | None \<Rightarrow>
             if hd t = CHR ''+'' then
               (case unsigned_decimal (tl t) of None \<Rightarrow> NaN | Some q \<Rightarrow> to_double q)
             else if hd t = CHR ''-'' then
               (case unsigned_decimal (tl t) of None \<Rightarrow> NaN | Some q \<Rightarrow> to_double (- q))
             else (case unsigned_decimal t of None \<Rightarrow> NaN | Some q \<Rightarrow> to_double q)))"

fun toNumber :: "jsval \<Rightarrow> jsnum" where
  "toNumber Undefined = NaN"
| "toNumber Null = Fin 0"
| "toNumber (Bool b) = Fin (if b then 1 else 0)"
| "toNumber (Num n) = Fin (of_int n)"
| "toNumber (Str s) = StringToNumber s"

subsection \<open>Loose equality and relational comparison\<close>

text \<open>
  \<open>js_eq l r\<close> is \<open>l == r\<close>: \<open>null\<close> and \<open>undefined\<close> equal each other and nothing
  else; two strings are equal when they are the same string; any other pair of
  primitives is compared after conversion to numbers. \<open>js_lt l r\<close> is \<open>l < r\<close>: two
  strings are compared lexicographically, any other pair as numbers, and a comparison
  with \<open>NaN\<close> is false. \<open>l > r\<close> is \<open>js_lt r l\<close>.
\<close>

fun js_eq :: "jsval \<Rightarrow> jsval \<Rightarrow> bool" where
  "js_eq Undefined r = (r = Undefined \<or> r = Null)"
| "js_eq Null r = (r = Undefined \<or> r = Null)"
| "js_eq l Undefined = False"
| "js_eq l Null = False"
| "js_eq (Str a) (Str b) = (a = b)"
| "js_eq l r = num_eq (toNumber l) (toNumber r)"

fun str_lt :: "string \<Rightarrow> string \<Rightarrow> bool" where
  "str_lt [] [] = False"
| "str_lt [] (y # ys) = True"
| "str_lt (x # xs) [] = False"
| "str_lt (x # xs) (y # ys) =
     (if (of_char x :: nat) < of_char y then True
      else if (of_char y :: nat) < of_char x then False
      else str_lt xs ys)"

fun js_lt :: "jsval \<Rightarrow> jsval \<Rightarrow> bool" where
  "js_lt (Str a) (Str b) = str_lt a b"
| "js_lt l r = num_lt (toNumber l) (toNumber r)"

definition js_gt :: "jsval \<Rightarrow> jsval \<Rightarrow> bool" where
  "js_gt l r = js_lt r l"

text \<open>Truthiness of a primitive, as \<open>if (v)\<close> and \<open>Boolean(v)\<close> see it.\<close>

fun truthy :: "jsval \<Rightarrow> bool" where
  "truthy Undefined = False"
| "truthy Null = False"
| "truthy (Bool b) = b"
| "truthy (Num n) = (n \<noteq> 0)"
| "truthy (Str s) = (s \<noteq> [])"

section \<open>The comparator\<close>

text \<open>
  \<^verbatim>\<open>DataTable.Comparator = function(l,r) { return l == r ? 0 : l == null || l > r ? 1 : -1; }\<close>
\<close>

definition Comparator :: "jsval \<Rightarrow> jsval \<Rightarrow> int" where
  "Comparator l r = (if js_eq l r then 0 else if js_eq l Null \<or> js_gt l r then 1 else -1)"

section \<open>Binary search\<close>

text \<open>
  The loop of \<open>binarySearch\<close>: \<open>while (r - l > 1)\<close>, probing \<open>m = r + l >> 1\<close>, that
  is \<open>(r + l) >> 1\<close>, the floor of the half. The optional bounds are never passed in
  the source, so the model fixes them at their defaults, \<open>-1\<close> and the length.
  The test \<open>index[r] && ...\<close> is one of truthiness: \<open>index[r]\<close> is \<open>undefined\<close>, hence
  falsy, when \<open>r\<close> is outside the array, and inside it is the element, whose truthiness
  \<open>is_truthy\<close> gives (\<open>truthy\<close> for a primitive; an object, such as an index entry, is
  always truthy).
\<close>

function bs_loop :: "'a list \<Rightarrow> 'b \<Rightarrow> ('a \<Rightarrow> 'b \<Rightarrow> int) \<Rightarrow> int \<Rightarrow> int \<Rightarrow> int" where
  "bs_loop index v comparator l r =
     (if r - l > 1 then
        (if comparator (index ! nat ((r + l) div 2)) v < 0
         then bs_loop index v comparator ((r + l) div 2) r
         else bs_loop index v comparator l ((r + l) div 2))
      else r)"
  by pat_completeness auto
termination
  by (relation "measure (\<lambda>(index, v, comparator, l, r). nat (r - l))") auto

declare bs_loop.simps [simp del]

definition binarySearch ::
  "('a \<Rightarrow> bool) \<Rightarrow> 'a list \<Rightarrow> 'b \<Rightarrow> ('a \<Rightarrow> 'b \<Rightarrow> int) \<Rightarrow> rat" where
  "binarySearch is_truthy index v comparator =
     (let lBound = - 1; uBound = int (length index);
          r = bs_loop index v comparator lBound uBound;
          result = (if 0 \<le> r \<and> r < int (length index) \<and> is_truthy (index ! nat r)
                       \<and> comparator (index ! nat r) v = 0
                    then of_int r else of_int r - 1 / 2)
      in if result < 0 then - 1
         else if result > of_int uBound - 1 then of_int uBound
         else result)"

section \<open>Rows, errors and index entries\<close>

text \<open>
  A row object maps property names to cell values. Its \<open>$\<close> property, when present, is
  the closure that \<open>insert\<close> attached to the canonical row; clones share it. A closure is
  identified by the table that made it and a serial number (its allocation).
\<close>

datatype handle = Handle (h_table: nat) (h_id: nat)

record row =
  cells :: "(string \<times> jsval) list"
  dollar :: "handle option"

definition cell :: "row \<Rightarrow> string \<Rightarrow> jsval" where
  "cell r c = (case map_of (cells r) c of Some v \<Rightarrow> v | None \<Rightarrow> Undefined)"

text \<open>
  Exceptions. \<open>Error\<close> carries the fixed part of the message of a \<open>throw new Error(...)\<close>
  of the source (paths and JSON dumps appended to it are left out); \<open>TypeError\<close> and
  \<open>RangeError\<close> are raised by the language itself (a property read on \<open>undefined\<close>, a
  call of a non-function, a negative array length). An exception aborts the call: the
  model does not describe the table a failed call leaves behind.
\<close>

datatype error = Error string | TypeError | RangeError

text \<open>
  An index entry \<open>{value, data, size, subtotal}\<close>. Its \<open>data\<close> is the array of rows at
  the last level and a nested array of entries, carrying its \<open>total\<close>, above it.
\<close>

datatype entry = Entry (e_value: jsval) (e_data: idata) (e_size: int) (e_subtotal: int)
  and idata = Rows "row list" | Sub "entry list" int

type_synonym level = "entry list \<times> int"

text \<open>
  Reading \<open>data\<close> as one kind of array or the other. The tree built by \<open>buildIndex\<close>
  has exactly one level per column, so the second equation of each projection is never
  used on it.
\<close>

fun rows_of :: "idata \<Rightarrow> row list" where
  "rows_of (Rows rs) = rs"
| "rows_of (Sub es t) = []"

fun level_of :: "idata \<Rightarrow> level" where
  "level_of (Sub es t) = (es, t)"
| "level_of (Rows rs) = ([], 0)"

fun data_length :: "idata \<Rightarrow> int" where
  "data_length (Rows rs) = int (length rs)"
| "data_length (Sub es t) = int (length es)"

definition sub_of :: "level \<Rightarrow> idata" where
  "sub_of lv = Sub (fst lv) (snd lv)"

definition last_opt :: "'a list \<Rightarrow> 'a option" where
  "last_opt xs = (if xs = [] then None else Some (last xs))"

section \<open>Sorting with a comparator\<close>

text \<open>
  \<open>Array.prototype.sort\<close> with a comparison function. The engine sees the elements only
  through the comparator, so what it computes is an arrangement of the positions of the
  array from the answers of the comparator on pairs of positions. The language fixes
  that arrangement for a consistent comparator only (it is then the stable sort) and
  leaves it to the engine otherwise, and the comparator of the source is not consistent
  on all values. The sort of the engine is therefore a parameter, \<open>engine\<close>, of every
  operation that sorts: from the length of the array and the comparator on positions it
  gives the positions in their new order.
\<close>

type_synonym engine = "nat \<Rightarrow> (nat \<Rightarrow> nat \<Rightarrow> int) \<Rightarrow> nat list"

definition array_sort :: "engine \<Rightarrow> ('a \<Rightarrow> 'a \<Rightarrow> int) \<Rightarrow> 'a list \<Rightarrow> 'a list" where
  "array_sort engine cmp xs =
     map (\<lambda>i. xs ! i) (engine (length xs) (\<lambda>i j. cmp (xs ! i) (xs ! j)))"

text \<open>
  The stable sort, by insertion: what every engine computes for a consistent comparator.
\<close>

fun insert_sorted :: "(nat \<Rightarrow> nat \<Rightarrow> int) \<Rightarrow> nat \<Rightarrow> nat list \<Rightarrow> nat list" where
  "insert_sorted cmp x [] = [x]"
| "insert_sorted cmp x (y # ys) =
     (if cmp x y \<le> 0 then x # y # ys else y # insert_sorted cmp x ys)"

definition stable_sort :: engine where
  "stable_sort n cmp = foldr (insert_sorted cmp) [0..<n] []"

section \<open>Building an index\<close>

text \<open>
  \<open>buildShallowIndex\<close>: sort the rows by the column, then open a new entry whenever the
  cell differs (\<open>===\<close>) from the last entry's value. The sentinel \<open>lastEntry\<close> of the
  source, \<open>{value: {}, subtotal: 0}\<close>, equals no cell; it is the empty \<open>index\<close> here.
\<close>

fun group_rows :: "string \<Rightarrow> row list \<Rightarrow> entry list \<Rightarrow> entry list" where
  "group_rows c [] index = index"
| "group_rows c (r # rs) index =
     (if index \<noteq> [] \<and> cell r c = e_value (last index)
      then group_rows c rs
             (butlast index @
              [Entry (e_value (last index)) (Rows (rows_of (e_data (last index)) @ [r]))
                     (e_size (last index) + 1) (e_subtotal (last index) + 1)])
      else group_rows c rs
             (index @
              [Entry (cell r c) (Rows [r]) 1
                     ((if index = [] then 0 else e_subtotal (last index)) + 1)]))"

definition buildShallowIndex :: "engine \<Rightarrow> row list \<Rightarrow> string \<Rightarrow> level" where
  "buildShallowIndex engine rows columnName =
     (let sorted = array_sort engine (\<lambda>l r. Comparator (cell l columnName) (cell r columnName)) rows;
          index = group_rows columnName sorted []
      in (index, if index = [] then 0 else e_subtotal (last index)))"

fun buildIndex_rec :: "engine \<Rightarrow> string list \<Rightarrow> row list \<Rightarrow> level" where
  "buildIndex_rec engine [] rows = ([], 0)"
| "buildIndex_rec engine (c # cs) rows =
     (let index = buildShallowIndex engine rows c in
      if cs \<noteq> []
      then (map (\<lambda>e. Entry (e_value e) (sub_of (buildIndex_rec engine cs (rows_of (e_data e))))
                            (e_size e) (e_subtotal e)) (fst index),
            snd index)
      else index)"

text \<open>
  \<open>buildIndex\<close> reads \<open>columns[0].name\<close> and a cell of every row: with no column, or
  with an \<open>undefined\<close> element among the rows (\<open>None\<close>), the language raises a TypeError.
\<close>

definition buildIndex :: "engine \<Rightarrow> string list \<Rightarrow> row option list \<Rightarrow> error + level" where
  "buildIndex engine columns rows =
     (case those rows of
        None \<Rightarrow> Inl TypeError
      | Some rs \<Rightarrow> if columns = [] then Inl TypeError else Inr (buildIndex_rec engine columns rs))"

section \<open>Merging two indexes\<close>

record callbacks =
  processLeftSideEntry :: "entry \<Rightarrow> entry option \<Rightarrow> entry"
  processRightSideEntry :: "entry option \<Rightarrow> entry \<Rightarrow> error + entry option"
  mergeLeftAndRightEntries :: "entry \<Rightarrow> entry \<Rightarrow> bool \<Rightarrow> entry"
  mergeTotals :: "level \<Rightarrow> level \<Rightarrow> bool \<Rightarrow> level"

text \<open>
  The walk of \<open>mergeIndex\<close> over both arrays. \<open>out\<close> is the part of the left array
  before the cursor \<open>l\<close> (so \<open>left[l - 1]\<close> is its last element), \<open>prevR\<close> is
  \<open>right[r - 1]\<close>, and the two lists are what remains from each cursor on. \<open>child\<close> is
  the recursive merge of the next level, absent when \<open>depth <= 1\<close>. An entry whose size
  has become \<open>0\<close> is spliced out.
\<close>

definition merge_entries ::
  "callbacks \<Rightarrow> (level \<Rightarrow> level \<Rightarrow> error + level) option \<Rightarrow> entry \<Rightarrow> entry \<Rightarrow> error + entry" where
  "merge_entries cb child leftEntry rightEntry =
     (case child of
        None \<Rightarrow> Inr (mergeLeftAndRightEntries cb leftEntry rightEntry True)
      | Some rec \<Rightarrow>
          (case rec (level_of (e_data leftEntry)) (level_of (e_data rightEntry)) of
             Inl e \<Rightarrow> Inl e
           | Inr lv \<Rightarrow>
               Inr (mergeLeftAndRightEntries cb
                      (Entry (e_value leftEntry) (sub_of lv) (e_size leftEntry) (e_subtotal leftEntry))
                      rightEntry False)))"

fun walk ::
  "callbacks \<Rightarrow> (level \<Rightarrow> level \<Rightarrow> error + level) option \<Rightarrow> entry list \<Rightarrow> entry option \<Rightarrow>
   entry list \<Rightarrow> entry list \<Rightarrow> error + entry list" where
  "walk cb child out prevR [] [] = Inr out"
| "walk cb child out prevR (leftEntry # ls) [] =
     walk cb child (out @ [processLeftSideEntry cb leftEntry prevR]) prevR ls []"
| "walk cb child out prevR [] (rightEntry # rs) =
     (case processRightSideEntry cb (last_opt out) rightEntry of
        Inl e \<Rightarrow> Inl e
      | Inr None \<Rightarrow> walk cb child out (Some rightEntry) [] rs
      | Inr (Some newEntry) \<Rightarrow> walk cb child (out @ [newEntry]) (Some rightEntry) [] rs)"
| "walk cb child out prevR (leftEntry # ls) (rightEntry # rs) =
     (if js_eq (e_value leftEntry) (e_value rightEntry) then
        (case merge_entries cb child leftEntry rightEntry of
           Inl e \<Rightarrow> Inl e
         | Inr merged \<Rightarrow>
             if e_size merged = 0 then walk cb child out (Some rightEntry) ls rs
             else walk cb child (out @ [merged]) (Some rightEntry) ls rs)
      else if js_lt (e_value leftEntry) (e_value rightEntry) then
        walk cb child (out @ [processLeftSideEntry cb leftEntry prevR]) prevR ls (rightEntry # rs)
      else
        (case processRightSideEntry cb (last_opt out) rightEntry of
           Inl e \<Rightarrow> Inl e
         | Inr None \<Rightarrow> walk cb child out (Some rightEntry) (leftEntry # ls) rs
         | Inr (Some newEntry) \<Rightarrow>
             walk cb child (out @ [newEntry]) (Some rightEntry) (leftEntry # ls) rs))"

definition merge_level ::
  "callbacks \<Rightarrow> (level \<Rightarrow> level \<Rightarrow> error + level) option \<Rightarrow> level \<Rightarrow> level \<Rightarrow> error + level" where
  "merge_level cb child left right =
     (case walk cb child [] None (fst left) (fst right) of
        Inl e \<Rightarrow> Inl e
      | Inr out \<Rightarrow> Inr (mergeTotals cb (out, snd left) right (child = None)))"

text \<open>\<open>mergeIndex(left, right, callbacks, depth)\<close>, by recursion on \<open>depth\<close>.\<close>

primrec mergeIndex :: "callbacks \<Rightarrow> nat \<Rightarrow> level \<Rightarrow> level \<Rightarrow> error + level" where
  "mergeIndex cb 0 = merge_level cb None"
| "mergeIndex cb (Suc n) =
     (if n = 0 then merge_level cb None else merge_level cb (Some (mergeIndex cb n)))"

section \<open>Adding and removing rows of an index\<close>

record Index =
  columns :: "string list"
  signature :: string
  index :: level

text \<open>Sequencing of calls that may throw.\<close>

definition bindE :: "error + 'a \<Rightarrow> ('a \<Rightarrow> error + 'b) \<Rightarrow> error + 'b" where
  "bindE m f = (case m of Inl e \<Rightarrow> Inl e | Inr x \<Rightarrow> f x)"

definition subIndexComparator :: "entry \<Rightarrow> entry \<Rightarrow> int" where
  "subIndexComparator l r = Comparator (e_value l) (e_value r)"

text \<open>
  The callbacks of \<open>rowsAdded\<close>. The source updates the left entry in place; the model
  returns the updated entry. \<open>mergeTotals\<close> adds the totals and sorts the left array by
  value with the comparator; it leaves every \<open>subtotal\<close> as the walk computed it.
\<close>

definition rowsAdded_callbacks :: "engine \<Rightarrow> callbacks" where
  "rowsAdded_callbacks engine =
     \<lparr> processLeftSideEntry = (\<lambda>leftEntry previousRightEntry.
         case previousRightEntry of
           None \<Rightarrow> leftEntry
         | Some p \<Rightarrow> Entry (e_value leftEntry) (e_data leftEntry) (e_size leftEntry)
                           (e_subtotal leftEntry + e_subtotal p)),
       processRightSideEntry = (\<lambda>previousLeftEntry rightEntry.
         Inr (Some (Entry (e_value rightEntry) (e_data rightEntry) (e_size rightEntry)
                      (e_size rightEntry +
                       (case previousLeftEntry of None \<Rightarrow> 0 | Some p \<Rightarrow> e_subtotal p))))),
       mergeLeftAndRightEntries = (\<lambda>leftEntry rightEntry isRowData.
         Entry (e_value leftEntry)
               (if isRowData then Rows (rows_of (e_data leftEntry) @ rows_of (e_data rightEntry))
                else e_data leftEntry)
               (e_size leftEntry + e_size rightEntry)
               (e_subtotal leftEntry + e_subtotal rightEntry)),
       mergeTotals = (\<lambda>leftIndex rightIndex isRowData.
         (array_sort engine subIndexComparator (fst leftIndex), snd leftIndex + snd rightIndex)) \<rparr>"

definition rowsAdded :: "engine \<Rightarrow> Index \<Rightarrow> row option list \<Rightarrow> error + Index" where
  "rowsAdded engine ix rows =
     bindE (buildIndex engine (columns ix) rows) (\<lambda>right.
     bindE (mergeIndex (rowsAdded_callbacks engine) (length (columns ix)) (index ix) right) (\<lambda>lv.
     Inr (ix\<lparr>index := lv\<rparr>)))"

text \<open>
  The callbacks of \<open>rowsRemoved\<close>. Rows are recognised by their \<open>$\<close> property, which a
  canonical row shares with all its clones. An entry only on the right side throws.
\<close>

definition rowsRemoved_callbacks :: callbacks where
  "rowsRemoved_callbacks =
     \<lparr> processLeftSideEntry = (\<lambda>leftEntry previousRightEntry.
         case previousRightEntry of
           None \<Rightarrow> leftEntry
         | Some p \<Rightarrow> Entry (e_value leftEntry) (e_data leftEntry) (e_size leftEntry)
                           (e_subtotal leftEntry - e_subtotal p)),
       processRightSideEntry = (\<lambda>previousLeftEntry rightEntry.
         Inl (Error ''How did a value in the sublist, not start in the list?'')),
       mergeLeftAndRightEntries = (\<lambda>leftEntry rightEntry isRowData.
         Entry (e_value leftEntry)
               (if isRowData
                then Rows (filter (\<lambda>r. dollar r \<notin> set (map dollar (rows_of (e_data rightEntry))))
                                  (rows_of (e_data leftEntry)))
                else e_data leftEntry)
               (e_size leftEntry - e_size rightEntry)
               (e_subtotal leftEntry - e_subtotal rightEntry)),
       mergeTotals = (\<lambda>leftIndex rightIndex isRowData.
         (fst leftIndex, snd leftIndex - snd rightIndex)) \<rparr>"

definition rowsRemoved :: "engine \<Rightarrow> Index \<Rightarrow> row option list \<Rightarrow> error + Index" where
  "rowsRemoved engine ix rows =
     bindE (buildIndex engine (columns ix) rows) (\<lambda>right.
     bindE (mergeIndex rowsRemoved_callbacks (length (columns ix)) (index ix) right) (\<lambda>lv.
     Inr (ix\<lparr>index := lv\<rparr>)))"

section \<open>Validating an index\<close>

text \<open>
  The loop of \<open>check\<close> over the entries of one level, in the order of the source's
  tests. \<open>lastValue\<close> is \<open>None\<close> at the first entry (the tests on it are guarded by
  \<open>i > 0\<close>); \<open>nested\<close> is the check of the next level when \<open>columns.length > 1\<close>.
\<close>

fun check_entries ::
  "(level \<Rightarrow> error + unit) option \<Rightarrow> int \<Rightarrow> jsval option \<Rightarrow> entry list \<Rightarrow> error + int" where
  "check_entries nested subtotal lastValue [] = Inr subtotal"
| "check_entries nested subtotal lastValue (ix # rest) =
     (if e_size ix = 0 then Inl (Error ''Index entry with a size of 0'')
      else if data_length (e_data ix) = 0 then Inl (Error ''Index entry with no data'')
      else if data_length (e_data ix) > e_size ix
        then Inl (Error ''Index entry with more data than the recorded size'')
      else if (case lastValue of None \<Rightarrow> False | Some lv \<Rightarrow> js_eq (e_value ix) lv)
        then Inl (Error ''Index entry was duplicated'')
      else if (case lastValue of None \<Rightarrow> False | Some lv \<Rightarrow> js_lt (e_value ix) lv)
        then Inl (Error ''Index entry was out of order'')
      else if subtotal + e_size ix \<noteq> e_subtotal ix then Inl (Error ''Subtotal was not correct'')
      else
        (case nested of
           Some chk \<Rightarrow>
             bindE (chk (level_of (e_data ix))) (\<lambda>_.
               check_entries nested (subtotal + e_size ix) (Some (e_value ix)) rest)
         | None \<Rightarrow>
             if data_length (e_data ix) \<noteq> e_size ix
             then Inl (Error ''Final index entry where size was incorrect'')
             else check_entries nested (subtotal + e_size ix) (Some (e_value ix)) rest))"

text \<open>
  The final test of a level. Its message calls \<open>localPath()\<close>, which reads the entry
  of the last iteration: on an empty level the throw itself fails with a TypeError.
\<close>

definition check_level :: "(level \<Rightarrow> error + unit) option \<Rightarrow> level \<Rightarrow> error + unit" where
  "check_level nested lv =
     bindE (check_entries nested 0 None (fst lv)) (\<lambda>subtotal.
       if snd lv \<noteq> subtotal
       then Inl (if fst lv = [] then TypeError else Error ''Total was not correct'')
       else Inr ())"

primrec check :: "string list \<Rightarrow> level \<Rightarrow> error + unit" where
  "check [] = check_level None"
| "check (c # cs) = (if cs = [] then check_level None else check_level (Some (check cs)))"

definition Index_validateIndex :: "Index \<Rightarrow> error + unit" where
  "Index_validateIndex ix = check (columns ix) (index ix)"

section \<open>The table\<close>

text \<open>
  The variables \<open>index\<close> and \<open>row\<close> captured by the \<open>$\<close> function of a row: its
  position in the row array and the canonical row.
\<close>

record closure =
  cl_index :: nat
  cl_row :: row

text \<open>
  The state \<open>this._\<close> of a table. \<open>table_id\<close> stands for the identity object
  \<open>tablesIdentities[id]\<close> (tables are taken to have distinct ids); \<open>active\<close> is
  \<open>False\<close> once \<open>drop\<close> has replaced the function \<open>active\<close> by one that throws;
  \<open>closures\<close> holds the \<open>$\<close> functions made so far and \<open>next_closure\<close> numbers the
  next one. An element \<open>None\<close> of \<open>rows\<close> is a hole or an \<open>undefined\<close> element.
  Logging (\<open>verbose\<close>) changes neither the table nor a result and is left out.
\<close>

record table =
  table_id :: nat
  columnNames :: "string list"
  rows :: "row option list"
  indicies :: "Index list"
  paranoia :: bool
  verbose :: bool
  active :: bool
  closures :: "nat \<Rightarrow> closure option"
  next_closure :: nat

definition check_active :: "table \<Rightarrow> error + unit" where
  "check_active t = (if active t then Inr () else Inl (Error ''Table has been dropped''))"

subsection \<open>Column names\<close>

definition name_start :: "char \<Rightarrow> bool" where
  "name_start c =
     ((97 \<le> (of_char c :: nat) \<and> (of_char c :: nat) \<le> 122)
      \<or> (65 \<le> (of_char c :: nat) \<and> (of_char c :: nat) \<le> 90)
      \<or> (of_char c :: nat) = 95)"

definition name_part :: "char \<Rightarrow> bool" where
  "name_part c = (name_start c \<or> is_digit c \<or> (of_char c :: nat) = 36)"

definition valid_name :: "string \<Rightarrow> bool" where
  "valid_name name = (case name of [] \<Rightarrow> False | c # cs \<Rightarrow> name_start c \<and> list_all name_part cs)"

text \<open>
  \<open>cNames\<close> and \<open>changedColumns\<close> are plain objects, so a lookup also finds what they
  inherit from \<open>Object.prototype\<close>.
\<close>

definition object_prototype_keys :: "string list" where
  "object_prototype_keys =
     [''constructor'', ''toString'', ''toLocaleString'', ''valueOf'', ''hasOwnProperty'',
      ''isPrototypeOf'', ''propertyIsEnumerable'', ''__proto__'', ''__defineGetter__'',
      ''__defineSetter__'', ''__lookupGetter__'', ''__lookupSetter__'']"

fun check_names :: "string list option \<Rightarrow> string list \<Rightarrow> string list \<Rightarrow> error + unit" where
  "check_names superSet cNames [] = Inr ()"
| "check_names superSet cNames (name # names) =
     (if \<not> valid_name name then Inl (Error (''Invalid column name: '' @ name))
      else if name \<in> set cNames \<or> name \<in> set object_prototype_keys
        then Inl (Error (''Duplicate column name: '' @ name))
      else if (case superSet of None \<Rightarrow> False | Some ss \<Rightarrow> name \<notin> set ss)
        then Inl (Error (''Column name not found: '' @ name))
      else check_names superSet (name # cNames) names)"

definition checkColumnNames :: "string list \<Rightarrow> string list option \<Rightarrow> error + unit" where
  "checkColumnNames names superSet =
     (if names = [] then Inl (Error ''No column names specified'')
      else check_names superSet [] names)"

fun join :: "string \<Rightarrow> string list \<Rightarrow> string" where
  "join sep [] = []"
| "join sep [x] = x"
| "join sep (x # y # ys) = x @ sep @ join sep (y # ys)"

definition buildIndexSignature :: "string list \<Rightarrow> string" where
  "buildIndexSignature names = ''['' @ join '','' names @ '']''"

subsection \<open>Construction, cloning, and loops that may throw\<close>

definition DataTable :: "nat \<Rightarrow> string list \<Rightarrow> error + table" where
  "DataTable tid names =
     bindE (checkColumnNames names None) (\<lambda>_.
       Inr \<lparr> table_id = tid, columnNames = names, rows = [], indicies = [],
             paranoia = False, verbose = False, active = True,
             closures = (\<lambda>_. None), next_closure = 0 \<rparr>)"

text \<open>
  \<open>this._.clone\<close> is the generated function
  \<open>return {"$": object.$, "c1": object.c1, ...}\<close> over the table's columns.
\<close>

definition clone :: "table \<Rightarrow> row \<Rightarrow> row" where
  "clone t object = \<lparr> cells = map (\<lambda>c. (c, cell object c)) (columnNames t), dollar = dollar object \<rparr>"

definition clone_elem :: "table \<Rightarrow> row option \<Rightarrow> error + row" where
  "clone_elem t x = (case x of None \<Rightarrow> Inl TypeError | Some r \<Rightarrow> Inr (clone t r))"

fun collectE :: "('a \<Rightarrow> error + 'b) \<Rightarrow> 'a list \<Rightarrow> error + 'b list" where
  "collectE f [] = Inr []"
| "collectE f (x # xs) = bindE (f x) (\<lambda>y. bindE (collectE f xs) (\<lambda>ys. Inr (y # ys)))"

fun foldE :: "('s \<Rightarrow> 'a \<Rightarrow> error + 's) \<Rightarrow> 's \<Rightarrow> 'a list \<Rightarrow> error + 's" where
  "foldE f s [] = Inr s"
| "foldE f s (x # xs) = bindE (f s x) (\<lambda>s'. foldE f s' xs)"

fun validate_each :: "Index list \<Rightarrow> error + unit" where
  "validate_each [] = Inr ()"
| "validate_each (ix # ixs) = bindE (Index_validateIndex ix) (\<lambda>_. validate_each ixs)"

definition dt_validateIndex :: "table \<Rightarrow> error + unit" where
  "dt_validateIndex t = bindE (check_active t) (\<lambda>_. validate_each (indicies t))"

definition validate_if_paranoid :: "table \<Rightarrow> error + unit" where
  "validate_if_paranoid t = (if paranoia t then dt_validateIndex t else Inr ())"

subsection \<open>index\<close>

definition new_Index :: "string list \<Rightarrow> Index" where
  "new_Index names = \<lparr> columns = names, signature = buildIndexSignature names, index = ([], 0) \<rparr>"

text \<open>\<open>index()\<close> without an argument returns before \<open>self._.active()\<close> is called.\<close>

definition dt_index_list :: "table \<Rightarrow> error + string list list" where
  "dt_index_list t = Inr (map columns (indicies t))"

definition dt_index :: "engine \<Rightarrow> table \<Rightarrow> string list \<Rightarrow> error + table \<times> Index" where
  "dt_index engine t names =
     bindE (check_active t) (\<lambda>_.
     bindE (checkColumnNames names (Some (columnNames t))) (\<lambda>_.
       case find (\<lambda>ix. signature ix = buildIndexSignature names) (indicies t) of
         Some ix \<Rightarrow> Inr (t, ix)
       | None \<Rightarrow>
           bindE (rowsAdded engine (new_Index names) (rows t)) (\<lambda>ix.
             Inr (t\<lparr>indicies := indicies t @ [ix]\<rparr>, ix))))"

subsection \<open>insert\<close>

text \<open>
  The argument of \<open>insert\<close>, \<open>update\<close> and \<open>remove\<close>: an array of row objects, or one
  row object not wrapped in an array.
\<close>

datatype arg = Single row | Batch "row list"

text \<open>\<open>(rows && rows.constructor === Array) ? extend(rows.concat(), ary) : newArray(rows)\<close>\<close>

definition arg_rows :: "arg \<Rightarrow> row list" where
  "arg_rows a = (case a of Single r \<Rightarrow> [r] | Batch rs \<Rightarrow> rs)"

text \<open>
  The \<open>collect\<close> of \<open>insert\<close>. For a row with a \<open>$\<close> the callback returns nothing, so
  the collected array holds \<open>undefined\<close> at its place.
\<close>

fun insert_collect :: "table \<Rightarrow> row list \<Rightarrow> table \<times> row option list" where
  "insert_collect t [] = (t, [])"
| "insert_collect t (r # rs) =
     (if dollar r \<noteq> None then
        (case insert_collect t rs of (t', result) \<Rightarrow> (t', None # result))
      else
        (let row = (clone t r)\<lparr>dollar := Some (Handle (table_id t) (next_closure t))\<rparr>;
             t1 = t\<lparr> rows := rows t @ [Some row],
                     closures := (closures t)(next_closure t :=
                                   Some \<lparr> cl_index = length (rows t), cl_row = row \<rparr>),
                     next_closure := Suc (next_closure t) \<rparr>
         in case insert_collect t1 rs of (t', result) \<Rightarrow> (t', Some row # result)))"

fun each_index :: "(Index \<Rightarrow> error + Index) \<Rightarrow> Index list \<Rightarrow> error + Index list" where
  "each_index f [] = Inr []"
| "each_index f (i # ixs) = bindE (f i) (\<lambda>i'. bindE (each_index f ixs) (\<lambda>ixs'. Inr (i' # ixs')))"

definition dt_insert :: "engine \<Rightarrow> table \<Rightarrow> arg \<Rightarrow> error + table \<times> row list" where
  "dt_insert engine t a =
     bindE (check_active t) (\<lambda>_.
       case insert_collect t (arg_rows a) of
         (t1, result) \<Rightarrow>
           bindE (each_index (\<lambda>i. rowsAdded engine i result) (indicies t1)) (\<lambda>ixs.
           bindE (validate_if_paranoid (t1\<lparr>indicies := ixs\<rparr>)) (\<lambda>_.
           bindE (collectE (clone_elem (t1\<lparr>indicies := ixs\<rparr>)) result) (\<lambda>clones.
             Inr (t1\<lparr>indicies := ixs\<rparr>, clones)))))"

subsection \<open>remove\<close>

text \<open>
  \<open>remove\<close> wraps a non-array argument with \<open>newArray.apply(null, rows)\<close>: the
  arguments of \<open>newArray\<close> are then the properties \<open>0 .. length - 1\<close> of the row
  object, where \<open>length\<close> is its \<open>length\<close> property converted as the language's
  \<open>ToLength\<close> does (\<open>NaN\<close> and anything below \<open>1\<close> give \<open>0\<close>). A row object has
  no row objects under numeric names, so each of these elements fails at \<open>r.$(...)\<close>;
  they are \<open>None\<close> here. (An engine refuses a list of arguments beyond its own limit
  with a RangeError; the model sets no such limit.)
\<close>

definition apply_length :: "row \<Rightarrow> nat" where
  "apply_length r =
     (case toNumber (cell r ''length'') of
        Fin q \<Rightarrow> (if 1 \<le> q then nat (min \<lfloor>q\<rfloor> (2 ^ 53 - 1)) else 0)
      | PosInf \<Rightarrow> nat (2 ^ 53 - 1)
      | _ \<Rightarrow> 0)"

definition remove_arg_rows :: "arg \<Rightarrow> row option list" where
  "remove_arg_rows a =
     (case a of Batch rs \<Rightarrow> map Some rs | Single r \<Rightarrow> replicate (apply_length r) None)"

text \<open>
  \<open>checkTableIdentity(self, r.$(ROW_META_DATA.TABLE_ID))\<close> followed by a call of
  \<open>r.$\<close>: a row without \<open>$\<close> raises a TypeError, a row of another table the error of
  \<open>checkTableIdentity\<close>; otherwise the closure of the row is found.
\<close>

definition resolve :: "table \<Rightarrow> row \<Rightarrow> error + closure" where
  "resolve t r =
     (case dollar r of
        None \<Rightarrow> Inl TypeError
      | Some h \<Rightarrow>
          if h_table h \<noteq> table_id t
          then Inl (Error ''A row was passed that does not belong to this table.'')
          else (case closures t (h_id h) of
                  None \<Rightarrow> Inl (Error ''A row was passed that does not belong to this table.'')
                | Some cl \<Rightarrow> Inr cl))"

text \<open>\<open>r.$()\<close>: a clone of the canonical row.\<close>

definition original_of :: "table \<Rightarrow> row option \<Rightarrow> error + row" where
  "original_of t x =
     (case x of
        None \<Rightarrow> Inl TypeError
      | Some r \<Rightarrow> bindE (resolve t r) (\<lambda>cl. Inr (clone t (cl_row cl))))"

text \<open>An assignment \<open>a[i] = v\<close>: beyond the end it extends the array, leaving holes.\<close>

definition array_set :: "'a option list \<Rightarrow> nat \<Rightarrow> 'a option \<Rightarrow> 'a option list" where
  "array_set xs i v =
     (if i < length xs then xs[i := v] else xs @ replicate (i - length xs) None @ [v])"

text \<open>
  One round of the loop over \<open>origRows\<close>. \<open>row\<close> is a fresh clone, so \<open>row != last\<close>
  always holds. \<open>self._.rows.length--\<close> on an empty array raises a RangeError.
\<close>

definition remove_row :: "table \<Rightarrow> row \<Rightarrow> error + table" where
  "remove_row t row =
     bindE (if length (rows t) > 1 then
              bindE (resolve t row) (\<lambda>cl.
                case last (rows t) of
                  None \<Rightarrow> Inl TypeError
                | Some lastRow \<Rightarrow>
                    (case dollar lastRow of
                       None \<Rightarrow> Inl TypeError
                     | Some h \<Rightarrow>
                         Inr (t\<lparr> rows := array_set (rows t) (cl_index cl) (Some lastRow),
                                 closures := (closures t)(h_id h :=
                                   map_option (\<lambda>c. c\<lparr>cl_index := cl_index cl\<rparr>)
                                              (closures t (h_id h))) \<rparr>)))
            else Inr t) (\<lambda>t1.
       if rows t1 = [] then Inl RangeError else Inr (t1\<lparr>rows := butlast (rows t1)\<rparr>))"

definition dt_remove :: "engine \<Rightarrow> table \<Rightarrow> arg \<Rightarrow> error + table" where
  "dt_remove engine t a =
     bindE (check_active t) (\<lambda>_.
     bindE (collectE (original_of t) (remove_arg_rows a)) (\<lambda>origRows.
     bindE (each_index (\<lambda>i. rowsRemoved engine i (map Some origRows)) (indicies t)) (\<lambda>ixs.
     bindE (foldE remove_row (t\<lparr>indicies := ixs\<rparr>) origRows) (\<lambda>t2.
     bindE (validate_if_paranoid t2) (\<lambda>_. Inr t2)))))"

subsection \<open>update\<close>

text \<open>
  \<open>markChangedColumns\<close> is generated from
  \<open>"if (object.name !== original.name) changed = mark.name = true;".replace(/name/g, name)\<close>
  for every column. In the replacement text of \<open>replace\<close> the pair \<open>$$\<close> stands for one
  \<open>$\<close> (no other pattern of the replacement syntax can occur in a column name), so
  the generated test reads the property \<open>dollar_subst name\<close>.
\<close>

fun dollar_subst :: "string \<Rightarrow> string" where
  "dollar_subst (c # d # cs) =
     (if c = CHR ''$'' \<and> d = CHR ''$'' then CHR ''$'' # dollar_subst cs
      else c # dollar_subst (d # cs))"
| "dollar_subst cs = cs"

definition markChangedColumns :: "table \<Rightarrow> row \<Rightarrow> row \<Rightarrow> string list \<Rightarrow> bool \<times> string list" where
  "markChangedColumns t object original mark =
     foldl (\<lambda>(changed, mark) name.
              if cell object (dollar_subst name) \<noteq> cell original (dollar_subst name)
              then (True, mark @ [dollar_subst name]) else (changed, mark))
           (False, mark) (columnNames t)"

text \<open>\<open>Boolean(changedColumns[column.name])\<close>\<close>

definition is_marked :: "string list \<Rightarrow> string \<Rightarrow> bool" where
  "is_marked changedColumns name = (name \<in> set changedColumns \<or> name \<in> set object_prototype_keys)"

text \<open>The \<open>findAll\<close> of \<open>update\<close>: the rows that changed, and the columns marked.\<close>

fun update_findAll :: "table \<Rightarrow> row list \<Rightarrow> string list \<Rightarrow> error + row list \<times> string list" where
  "update_findAll t [] changedColumns = Inr ([], changedColumns)"
| "update_findAll t (r # rs) changedColumns =
     bindE (original_of t (Some r)) (\<lambda>original.
       case markChangedColumns t r original changedColumns of
         (changed, mark) \<Rightarrow>
           bindE (update_findAll t rs mark) (\<lambda>(kept, mark').
             Inr (if changed then r # kept else kept, mark')))"

text \<open>
  The body of the loop over the indexes. \<open>i.columns.any\<close> is not one of the array
  helpers of the source, nor of the language: it is the host's (Prototype's
  \<open>Enumerable.any\<close>), given here as \<open>any\<close>, and calling it without one raises a
  TypeError.
\<close>

definition update_index ::
  "engine \<Rightarrow> ((string \<Rightarrow> bool) \<Rightarrow> string list \<Rightarrow> bool) option \<Rightarrow> table \<Rightarrow> string list \<Rightarrow>
   row list \<Rightarrow> row list \<Rightarrow> Index \<Rightarrow> error + Index" where
  "update_index engine any t changedColumns oldRows newRows i =
     (case any of
        None \<Rightarrow> Inl TypeError
      | Some anyf \<Rightarrow>
          if anyf (is_marked changedColumns) (columns i) then
            bindE (rowsRemoved engine i (map Some oldRows)) (\<lambda>i1.
            bindE (if paranoia t then Index_validateIndex i1 else Inr ()) (\<lambda>_.
            bindE (rowsAdded engine i1 (map Some newRows)) (\<lambda>i2.
            bindE (if paranoia t then Index_validateIndex i2 else Inr ()) (\<lambda>_. Inr i2))))
          else Inr i)"

text \<open>
  The final loop: the clone of the submitted row becomes the canonical row, in the
  closure and in the row array.
\<close>

definition update_row :: "table \<Rightarrow> row \<Rightarrow> error + table" where
  "update_row t r =
     bindE (resolve t r) (\<lambda>cl.
       case dollar r of
         None \<Rightarrow> Inl TypeError
       | Some h \<Rightarrow>
           Inr (t\<lparr> closures := (closures t)(h_id h := Some (cl\<lparr>cl_row := clone t r\<rparr>)),
                   rows := array_set (rows t) (cl_index cl) (Some (clone t r)) \<rparr>))"

definition dt_update ::
  "engine \<Rightarrow> ((string \<Rightarrow> bool) \<Rightarrow> string list \<Rightarrow> bool) option \<Rightarrow> table \<Rightarrow> arg \<Rightarrow> error + table" where
  "dt_update engine any t a =
     bindE (check_active t) (\<lambda>_.
     bindE (update_findAll t (arg_rows a) []) (\<lambda>(changedRows, changedColumns).
     bindE (collectE (original_of t) (map Some changedRows)) (\<lambda>oldRows.
       if changedRows = [] then Inr t
       else
         bindE (each_index (update_index engine any t changedColumns oldRows changedRows) (indicies t)) (\<lambda>ixs.
           foldE update_row (t\<lparr>indicies := ixs\<rparr>) changedRows))))"

text \<open>Prototype's \<open>any\<close>: some element satisfies the test.\<close>

definition prototype_any :: "((string \<Rightarrow> bool) \<Rightarrow> string list \<Rightarrow> bool) option" where
  "prototype_any = Some (\<lambda>f xs. list_ex f xs)"

subsection \<open>drop and the accessors\<close>

definition dt_drop :: "table \<Rightarrow> error + table" where
  "dt_drop t = bindE (check_active t) (\<lambda>_. Inr (t\<lparr>active := False\<rparr>))"

definition dt_getRows :: "table \<Rightarrow> error + row list" where
  "dt_getRows t = bindE (check_active t) (\<lambda>_. collectE (clone_elem t) (rows t))"

definition dt_getCount :: "table \<Rightarrow> error + nat" where
  "dt_getCount t = bindE (check_active t) (\<lambda>_. Inr (length (rows t)))"

text \<open>\<open>paranoia\<close> and \<open>verbose\<close>: a getter without an argument, a setter with one.\<close>

definition dt_paranoia :: "table \<Rightarrow> jsval option \<Rightarrow> error + table \<times> bool option" where
  "dt_paranoia t enable =
     bindE (check_active t) (\<lambda>_.
       case enable of
         None \<Rightarrow> Inr (t, Some (paranoia t))
       | Some v \<Rightarrow> Inr (t\<lparr>paranoia := truthy v\<rparr>, None))"

definition dt_verbose :: "table \<Rightarrow> jsval option \<Rightarrow> error + table \<times> bool option" where
  "dt_verbose t enable =
     bindE (check_active t) (\<lambda>_.
       case enable of
         None \<Rightarrow> Inr (t, Some (verbose t))
       | Some v \<Rightarrow> Inr (t\<lparr>verbose := truthy v\<rparr>, None))"

section \<open>Queries\<close>

text \<open>
  A criterion \<open>{columnName, operator, value}\<close>, typed as the operator grammar has it:
  a comparison with a scalar, \<open>between\<close> with a \<open>Range(begin, end)\<close> of numbers, \<open>in\<close>
  with the elements of an array or \<open>Set\<close>. The test of the operator's spelling in
  \<open>findWhere\<close> is thereby a matter of the type.
\<close>

datatype cmp_op = EQ | NE | LE | LT | GE | GT

datatype criterion =
    Compare string cmp_op jsval
  | Between string int int
  | In string "jsval list"

fun criterion_column :: "criterion \<Rightarrow> string" where
  "criterion_column (Compare c _ _) = c"
| "criterion_column (Between c _ _) = c"
| "criterion_column (In c _) = c"

definition calculateSingleRowCriteriaCost :: "criterion list \<Rightarrow> int" where
  "calculateSingleRowCriteriaCost criteria =
     foldl (\<lambda>cost c. case c of
                        Between _ _ _ \<Rightarrow> cost + 1
                      | In _ xs \<Rightarrow> cost + int (length xs) - 1
                      | Compare _ _ _ \<Rightarrow> cost)
           (int (length criteria)) criteria"

text \<open>
  What \<open>computeCost\<close> returns, and the full-scan candidate \<open>worstCase\<close> of \<open>getRows\<close>.
  \<open>reduce\<close> holds what calling the function \<open>reduce\<close> returns.
\<close>

record plan =
  cost :: jsnum
  criteriaUnused :: "criterion list"
  reduce :: "error + row option list"
  indexSignature :: string

definition worstCase :: "table \<Rightarrow> criterion list \<Rightarrow> plan" where
  "worstCase t criteria =
     \<lparr> cost = Fin (of_int (int (length (rows t)) * calculateSingleRowCriteriaCost criteria)),
       criteriaUnused = criteria,
       reduce = Inr (rows t),
       indexSignature = ''<table scan>'' \<rparr>"

text \<open>
  The \<open>inject\<close> over the indexes:
  \<open>return (bestCase.cost > thisCase.cost) ? thisCase : bestCase\<close>. The cost
  arithmetic of \<open>computeCost\<close> is floating point (\<open>0.667\<close>, divisions by a length
  that may be \<open>0\<close>), so \<open>computeCost\<close> is a parameter: any function from an index and
  the criteria to a plan, or to an exception.
\<close>

fun choose_plan ::
  "(Index \<Rightarrow> criterion list \<Rightarrow> error + plan) \<Rightarrow> criterion list \<Rightarrow> plan \<Rightarrow> Index list \<Rightarrow>
   error + plan" where
  "choose_plan computeCost criteria bestCase [] = Inr bestCase"
| "choose_plan computeCost criteria bestCase (ix # ixs) =
     bindE (computeCost ix criteria) (\<lambda>thisCase.
       choose_plan computeCost criteria
         (if num_gt (cost bestCase) (cost thisCase) then thisCase else bestCase) ixs)"

text \<open>
  \<open>bind(f, ctx)\<close> of the source: \<open>f\<close> itself when \<open>ctx == null\<close>, otherwise
  \<open>function() { f.apply(ctx, arguments); }\<close>, which calls \<open>f\<close> and returns nothing.
\<close>

definition js_bind :: "('a \<Rightarrow> jsval) \<Rightarrow> bool \<Rightarrow> 'a \<Rightarrow> jsval" where
  "js_bind f ctx_is_null = (if ctx_is_null then f else (\<lambda>x. let discarded = f x in Undefined))"

text \<open>\<open>v >= begin && v <= end\<close> of a \<open>Range\<close>, and \<open>include\<close> of a \<open>Set\<close>.\<close>

definition js_ge :: "jsval \<Rightarrow> jsval \<Rightarrow> bool" where
  "js_ge l r =
     (case (l, r) of
        (Str a, Str b) \<Rightarrow> \<not> str_lt a b
      | _ \<Rightarrow> toNumber l \<noteq> NaN \<and> toNumber r \<noteq> NaN \<and> \<not> num_lt (toNumber l) (toNumber r))"

definition Range_include :: "int \<Rightarrow> int \<Rightarrow> jsval \<Rightarrow> jsval" where
  "Range_include begin end v = Bool (js_ge v (Num begin) \<and> js_ge (Num end) v)"

definition Set_include :: "jsval list \<Rightarrow> jsval \<Rightarrow> jsval" where
  "Set_include xs v = Bool (list_ex (\<lambda>x. js_eq x v) xs)"

text \<open>The function \<open>include\<close> that the \<open>switch\<close> of \<open>getRows\<close> builds for a criterion.\<close>

fun include_of :: "criterion \<Rightarrow> jsval \<Rightarrow> jsval" where
  "include_of (Compare c EQ v) = (\<lambda>x. Bool (Comparator x v = 0))"
| "include_of (Compare c NE v) = (\<lambda>x. Bool (Comparator x v \<noteq> 0))"
| "include_of (Compare c LE v) = (\<lambda>x. Bool (Comparator x v \<le> 0))"
| "include_of (Compare c LT v) = (\<lambda>x. Bool (Comparator x v < 0))"
| "include_of (Compare c GE v) = (\<lambda>x. Bool (Comparator x v \<ge> 0))"
| "include_of (Compare c GT v) = (\<lambda>x. Bool (Comparator x v > 0))"
| "include_of (Between c b e) = js_bind (Range_include b e) False"
| "include_of (In c xs) = js_bind (Set_include xs) False"

text \<open>
  \<open>matchedRows.findAll(function(row) { return include(row[criterion.columnName]); })\<close>
\<close>

fun findAll_rows :: "criterion \<Rightarrow> row option list \<Rightarrow> error + row option list" where
  "findAll_rows criterion [] = Inr []"
| "findAll_rows criterion (None # rs) = Inl TypeError"
| "findAll_rows criterion (Some r # rs) =
     bindE (findAll_rows criterion rs) (\<lambda>kept.
       Inr (if truthy (include_of criterion (cell r (criterion_column criterion)))
            then Some r # kept else kept))"

definition apply_criterion :: "row option list \<Rightarrow> criterion \<Rightarrow> error + row option list" where
  "apply_criterion matchedRows criterion = findAll_rows criterion matchedRows"

text \<open>
  \<open>findWhere\<close> and \<open>and\<close> accumulate the criteria; \<open>getRows\<close> plans, reduces, filters
  by the unused criteria and clones.
\<close>

definition dt_findWhere :: "table \<Rightarrow> criterion \<Rightarrow> error + criterion list" where
  "dt_findWhere t c =
     bindE (check_active t) (\<lambda>_.
     bindE (checkColumnNames [criterion_column c] (Some (columnNames t))) (\<lambda>_. Inr [c]))"

definition query_and :: "table \<Rightarrow> criterion list \<Rightarrow> criterion \<Rightarrow> error + criterion list" where
  "query_and t criteria c =
     bindE (check_active t) (\<lambda>_.
     bindE (checkColumnNames [criterion_column c] (Some (columnNames t))) (\<lambda>_. Inr (criteria @ [c])))"

definition select_plan ::
  "(Index \<Rightarrow> criterion list \<Rightarrow> error + plan) \<Rightarrow> table \<Rightarrow> criterion list \<Rightarrow> error + plan" where
  "select_plan computeCost t criteria =
     choose_plan computeCost criteria (worstCase t criteria) (indicies t)"

definition query_getRows ::
  "(Index \<Rightarrow> criterion list \<Rightarrow> error + plan) \<Rightarrow> table \<Rightarrow> criterion list \<Rightarrow> error + row list" where
  "query_getRows computeCost t criteria =
     bindE (check_active t) (\<lambda>_.
     bindE (select_plan computeCost t criteria) (\<lambda>bestCase.
     bindE (reduce bestCase) (\<lambda>matchedRows.
     bindE (foldE apply_criterion matchedRows (criteriaUnused bestCase)) (\<lambda>matchedRows'.
       collectE (clone_elem t) matchedRows'))))"

section \<open>Auxiliary notions for the statements\<close>



text \<open>
  The single-row evaluation cost of one criterion as the specification words it: base
  \<open>1\<close>, \<open>between\<close> adds \<open>1\<close>, \<open>in\<close> adds the number of elements minus \<open>1\<close>.
\<close>

fun spec_singleRowCost :: "criterion \<Rightarrow> int" where
  "spec_singleRowCost (Compare c op v) = 1"
| "spec_singleRowCost (Between c b e) = 1 + 1"
| "spec_singleRowCost (In c xs) = 1 + (int (length xs) - 1)"

text \<open>What a call returned, or the exception it raised.\<close>

definition returned :: "error + 's \<times> 'a \<Rightarrow> error + 'a" where
  "returned m = (case m of Inl e \<Rightarrow> Inl e | Inr p \<Rightarrow> Inr (snd p))"

definition raised :: "error + 'a \<Rightarrow> error option" where
  "raised m = (case m of Inl e \<Rightarrow> Some e | Inr x \<Rightarrow> None)"

text \<open>Every index has at least one column, as \<open>checkColumnNames\<close> ensures in \<open>index\<close>.\<close>

definition indexes_have_columns :: "table \<Rightarrow> bool" where
  "indexes_have_columns t = list_all (\<lambda>i. columns i \<noteq> []) (indicies t)"






text \<open>
  No entry of an index, at any level, has a size below \<open>1\<close>. \<open>validateIndex\<close> rejects
  an entry that has (its size is then \<open>0\<close>, or below the length of its data, which is
  not empty).
\<close>

primrec sizes_positive :: "nat \<Rightarrow> entry \<Rightarrow> bool" where
  "sizes_positive 0 e = (0 < e_size e)"
| "sizes_positive (Suc n) e =
     (0 < e_size e \<and> list_all (sizes_positive n) (fst (level_of (e_data e))))"

definition index_sizes_positive :: "table \<Rightarrow> bool" where
  "index_sizes_positive t =
     list_all (\<lambda>i. list_all (sizes_positive (length (columns i) - 1)) (fst (index i))) (indicies t)"

section \<open>Scenarios\<close>

text \<open>
  The scenarios run on the engine \<open>stable_sort\<close>. In each of them the comparator is
  consistent on the values that are sorted, so that the language leaves the engine no
  choice.
\<close>

text \<open>A new row object \<open>{c: v}\<close>.\<close>

definition row_c :: "jsval \<Rightarrow> row" where
  "row_c v = \<lparr> cells = [(''c'', v)], dollar = None \<rparr>"

text \<open>
  A table over the column \<open>c\<close> with an index on it; \<open>{c: 5}\<close> is inserted, then a row
  whose \<open>c\<close> is \<open>undefined\<close>.
\<close>

definition absent_after_five :: "error + table" where
  "absent_after_five =
     bindE (DataTable 0 [''c'']) (\<lambda>t0.
     bindE (dt_index stable_sort t0 [''c'']) (\<lambda>(t1, ix).
     bindE (dt_insert stable_sort t1 (Batch [row_c (Num 5)])) (\<lambda>(t2, inserted).
     bindE (dt_insert stable_sort t2 (Batch [row_c Undefined])) (\<lambda>(t3, inserted'). Inr t3))))"

text \<open>
  A table whose only column is named \<open>a$$\<close>, indexed; a row with value \<open>1\<close> is
  inserted and its clone is submitted to \<open>update\<close> with the value \<open>2\<close>.
\<close>

definition dollar_table :: "error + table \<times> row list" where
  "dollar_table =
     bindE (DataTable 0 [''a$$'']) (\<lambda>t0.
     bindE (dt_index stable_sort t0 [''a$$'']) (\<lambda>(t1, ix).
       dt_insert stable_sort t1 (Batch [\<lparr> cells = [(''a$$'', Num 1)], dollar = None \<rparr>])))"

definition dollar_updated :: "error + table" where
  "dollar_updated =
     bindE dollar_table (\<lambda>(t, clones).
       dt_update stable_sort prototype_any t (Batch (map (\<lambda>r. r\<lparr>cells := [(''a$$'', Num 2)]\<rparr>) clones)))"

definition dollar_index_after :: "error + level list" where
  "dollar_index_after = bindE dollar_updated (\<lambda>t. Inr (map index (indicies t)))"

text \<open>
  A table over \<open>c\<close>, indexed, holding \<open>{c: 5}\<close>; its clone is submitted to \<open>update\<close>
  with the value \<open>7\<close> on a host without \<open>any\<close>.
\<close>

definition indexed_five :: "error + table \<times> row list" where
  "indexed_five =
     bindE (DataTable 0 [''c'']) (\<lambda>t0.
     bindE (dt_index stable_sort t0 [''c'']) (\<lambda>(t1, ix). dt_insert stable_sort t1 (Batch [row_c (Num 5)])))"

definition update_without_any :: "error + table" where
  "update_without_any =
     bindE indexed_five (\<lambda>(t, clones).
       dt_update stable_sort None t (Batch (map (\<lambda>r. r\<lparr>cells := [(''c'', Num 7)]\<rparr>) clones)))"

text \<open>A table over \<open>c\<close> without an index, holding \<open>{c: 5}\<close>, and two queries on it.\<close>

definition plain_five :: "error + table \<times> row list" where
  "plain_five = bindE (DataTable 0 [''c'']) (\<lambda>t0. dt_insert stable_sort t0 (Batch [row_c (Num 5)]))"

definition between_query ::
  "(Index \<Rightarrow> criterion list \<Rightarrow> error + plan) \<Rightarrow> error + row list" where
  "between_query computeCost =
     bindE plain_five (\<lambda>(t, clones).
     bindE (dt_findWhere t (Between ''c'' 1 10)) (query_getRows computeCost t))"

definition at_least_query ::
  "(Index \<Rightarrow> criterion list \<Rightarrow> error + plan) \<Rightarrow> error + row list" where
  "at_least_query computeCost =
     bindE plain_five (\<lambda>(t, clones).
     bindE (dt_findWhere t (Compare ''c'' GE (Num 1))) (query_getRows computeCost t))"

text \<open>A table with an index, dropped.\<close>

definition dropped_table :: "error + table" where
  "dropped_table =
     bindE (DataTable 0 [''c'']) (\<lambda>t0.
     bindE (dt_index stable_sort t0 [''c'']) (\<lambda>(t1, ix). dt_drop t1))"

text \<open>
  The clone returned by a first \<open>insert\<close> is inserted again: in a batch with a new
  row, and alone, not wrapped in an array.
\<close>

definition reinsert_in_batch :: "error + table \<times> row list" where
  "reinsert_in_batch =
     bindE plain_five (\<lambda>(t, clones). dt_insert stable_sort t (Batch (clones @ [row_c (Num 6)])))"




text \<open>
  A table whose column is named \<open>length\<close>, holding \<open>{length: 1}\<close>; the clone is passed
  to \<open>remove\<close> without an array around it.
\<close>

definition length_table :: "error + table \<times> row list" where
  "length_table =
     bindE (DataTable 0 [''length'']) (\<lambda>t0.
       dt_insert stable_sort t0 (Batch [\<lparr> cells = [(''length'', Num 1)], dollar = None \<rparr>]))"

definition remove_single_length :: "error + table" where
  "remove_single_length =
     bindE length_table (\<lambda>(t, clones).
       case clones of [] \<Rightarrow> Inl (Error ''no clone'') | r # rest \<Rightarrow> dt_remove stable_sort t (Single r))"

text \<open>
  A live table in paranoia mode, over \<open>c\<close> and \<open>d\<close> with indexes on \<open>[c]\<close> and
  \<open>[d, c]\<close>, holding one row (\<open>sample_run\<close> builds it); the clone of that row; and
  a new row object.
\<close>

definition sample_run :: "error + table" where
  "sample_run =
     bindE (DataTable 0 [''c'', ''d'']) (\<lambda>t0.
     bindE (dt_index stable_sort t0 [''c'']) (\<lambda>(t1, ix).
     bindE (dt_index stable_sort t1 [''d'', ''c'']) (\<lambda>(t2, ix').
     bindE (dt_insert stable_sort t2 (Batch [\<lparr> cells = [(''c'', Num 5), (''d'', Str ''x'')], dollar = None \<rparr>]))
       (\<lambda>(t3, clones).
     bindE (dt_paranoia t3 (Some (Bool True))) (\<lambda>(t4, u). Inr t4)))))"

definition sample_row :: row where
  "sample_row = \<lparr> cells = [(''c'', Num 5), (''d'', Str ''x'')], dollar = Some (Handle 0 0) \<rparr>"

definition sample_table :: table where
  "sample_table =
     \<lparr> table_id = 0, columnNames = [''c'', ''d''], rows = [Some sample_row],
       indicies =
         [\<lparr> columns = [''c''], signature = ''[c]'',
            index = ([Entry (Num 5) (Rows [sample_row]) 1 1], 1) \<rparr>,
          \<lparr> columns = [''d'', ''c''], signature = ''[d,c]'',
            index = ([Entry (Str ''x'') (Sub [Entry (Num 5) (Rows [sample_row]) 1 1] 1) 1 1], 1) \<rparr>],
       paranoia = True, verbose = False, active = True,
       closures = (\<lambda>n. None)(0 := Some \<lparr> cl_index = 0, cl_row = sample_row \<rparr>),
       next_closure = 1 \<rparr>"


text \<open>A cost function for the sample table: \<open>3\<close> for the index on \<open>[c]\<close>, \<open>1\<close> otherwise.\<close>

definition sample_cost :: "Index \<Rightarrow> criterion list \<Rightarrow> error + plan" where
  "sample_cost ix criteria =
     Inr \<lparr> cost = Fin (if signature ix = ''[c]'' then 3 else 1), criteriaUnused = [],
           reduce = Inr [], indexSignature = signature ix \<rparr>"


section \<open>The comparator on absent values\<close>

lemma Comparator_equal: "js_eq l r \<Longrightarrow> Comparator l r = 0"
  by (simp add: Comparator_def)

lemma Comparator_absent_left:
  "l = Undefined \<or> l = Null \<Longrightarrow> r \<noteq> Undefined \<Longrightarrow> r \<noteq> Null \<Longrightarrow> Comparator l r = 1"
  by (cases r) (auto simp: Comparator_def)

lemma Comparator_undefined_right:
  "l \<noteq> Undefined \<Longrightarrow> l \<noteq> Null \<Longrightarrow> Comparator l Undefined = - 1"
  by (cases l) (auto simp: Comparator_def js_gt_def)

text \<open>
  Claim C2. The comparator is to return \<open>0\<close> on equal values, \<open>+1\<close> when the left value
  is absent and the right one defined, and \<open>-1\<close> when the left value is defined and the
  right one absent. The first two hold (\<open>Comparator_equal\<close>, \<open>Comparator_absent_left\<close>), and
  so does the third against \<open>undefined\<close> (\<open>Comparator_undefined_right\<close>). Against \<open>null\<close>
  it fails: \<open>5 > null\<close> compares \<open>5\<close> with \<open>0\<close>, so \<open>Comparator(5, null)\<close> is \<open>+1\<close>, the
  same as \<open>Comparator(null, 5)\<close>.
\<close>

theorem Comparator_five_null: "Comparator (Num 5) Null = 1 \<and> Comparator Null (Num 5) = 1"
  by code_simp

section \<open>Binary search returns the rank of the probe\<close>

lemma bs_loop_bounds:
  assumes "l < r"
  shows "l < bs_loop seq v cmp l r \<and> bs_loop seq v cmp l r \<le> r"
  using assms
proof (induction seq v cmp l r rule: bs_loop.induct)
  case (1 index v comparator l r)
  show ?case
  proof (cases "r - l > 1")
    case False
    have res: "bs_loop index v comparator l r = r" using False by (subst bs_loop.simps) simp
    show ?thesis unfolding res using "1.prems" by simp
  next
    case True
    have m: "l < (r + l) div 2" "(r + l) div 2 < r" using True by auto
    show ?thesis
    proof (cases "comparator (index ! nat ((r + l) div 2)) v < 0")
      case c: True
      have res: "bs_loop index v comparator l r = bs_loop index v comparator ((r + l) div 2) r"
        using True c by (subst bs_loop.simps) simp
      from "1.IH"(1)[OF True c m(2)] m show ?thesis unfolding res by simp
    next
      case c: False
      have res: "bs_loop index v comparator l r = bs_loop index v comparator l ((r + l) div 2)"
        using True c by (subst bs_loop.simps) simp
      from "1.IH"(2)[OF True c m(1)] m show ?thesis unfolding res by simp
    qed
  qed
qed

lemma bs_loop_boundary:
  assumes "l < r" "- 1 \<le> l" "r \<le> int (length seq)"
    and "0 \<le> l \<Longrightarrow> cmp (seq ! nat l) v < 0"
    and "r < int (length seq) \<Longrightarrow> \<not> cmp (seq ! nat r) v < 0"
  shows "(0 < bs_loop seq v cmp l r \<longrightarrow> cmp (seq ! nat (bs_loop seq v cmp l r - 1)) v < 0)
       \<and> (bs_loop seq v cmp l r < int (length seq) \<longrightarrow> \<not> cmp (seq ! nat (bs_loop seq v cmp l r)) v < 0)"
  using assms
proof (induction seq v cmp l r rule: bs_loop.induct)
  case (1 index v comparator l r)
  show ?case
  proof (cases "r - l > 1")
    case False
    then have eq: "r = l + 1" using "1.prems"(1) by simp
    have res: "bs_loop index v comparator l r = r" using False by (subst bs_loop.simps) simp
    show ?thesis unfolding res using "1.prems"(4,5) eq by auto
  next
    case True
    have m: "l < (r + l) div 2" "(r + l) div 2 < r" using True by auto
    show ?thesis
    proof (cases "comparator (index ! nat ((r + l) div 2)) v < 0")
      case c: True
      have res: "bs_loop index v comparator l r = bs_loop index v comparator ((r + l) div 2) r"
        using True c by (subst bs_loop.simps) simp
      show ?thesis unfolding res
        by (rule "1.IH"(1)[OF True c m(2)]) (use m "1.prems" c in auto)
    next
      case c: False
      have res: "bs_loop index v comparator l r = bs_loop index v comparator l ((r + l) div 2)"
        using True c by (subst bs_loop.simps) simp
      show ?thesis unfolding res
        by (rule "1.IH"(2)[OF True c m(1)]) (use m "1.prems" c in auto)
    qed
  qed
qed




lemma bs_found:
  assumes r: "bs_loop seq v cmp (- 1) (int (length seq)) = int k"
    and k: "k < length seq" and t: "tr (seq ! k)" and c: "cmp (seq ! k) v = 0"
  shows "binarySearch tr seq v cmp = of_nat k"
proof -
  have n1: "\<not> (of_nat k :: rat) < 0" by simp
  have "k + 1 \<le> length seq" using k by simp
  then have "(of_nat k + 1 :: rat) \<le> of_nat (length seq)"
    by (metis of_nat_1 of_nat_add of_nat_le_iff)
  then have n2: "\<not> (of_nat k :: rat) > of_nat (length seq) - 1" by simp
  have cnd: "(0 \<le> int k \<and> int k < int (length seq) \<and> tr (seq ! nat (int k))
              \<and> cmp (seq ! nat (int k)) v = 0) = True"
    using k t c by simp
  show ?thesis
    unfolding binarySearch_def Let_def r cnd if_True of_int_of_nat_eq
    using n1 n2 by (simp only: if_False)
qed

lemma bs_notfound:
  assumes r: "bs_loop seq v cmp (- 1) (int (length seq)) = int k"
    and nc: "\<not> (k < length seq \<and> tr (seq ! k) \<and> cmp (seq ! k) v = 0)"
  shows "binarySearch tr seq v cmp =
        (if (of_nat k - 1 / 2 :: rat) < 0 then - 1
         else if (of_nat k - 1 / 2 :: rat) > of_nat (length seq) - 1 then of_nat (length seq)
         else of_nat k - 1 / 2)"
proof -
  have cnd: "(0 \<le> int k \<and> int k < int (length seq) \<and> tr (seq ! nat (int k))
              \<and> cmp (seq ! nat (int k)) v = 0) = False"
    using nc by simp
  show ?thesis
    unfolding binarySearch_def Let_def r cnd if_False of_int_of_nat_eq
    by (simp only: of_int_of_nat_eq)
qed

lemma half_below_zero: "((of_nat k - 1 / 2 :: rat) < 0) = (k = 0)"
proof (cases "k = 0")
  case True then show ?thesis by simp
next
  case False
  then have "(1 :: rat) \<le> of_nat k" by (simp add: Suc_leI)
  then show ?thesis using False by simp
qed

lemma half_above_last:
  assumes "k \<le> n"
  shows "((of_nat k - 1 / 2 :: rat) > of_nat n - 1) = (k = n)"
proof (cases "k = n")
  case True then show ?thesis by simp
next
  case False
  then have "k + 1 \<le> n" using assms by simp
  then have "(of_nat k + 1 :: rat) \<le> of_nat n"
    by (metis of_nat_1 of_nat_add of_nat_le_iff)
  then show ?thesis using False by simp
qed

lemma binarySearch_boundary:
  "\<exists>r\<le>length seq.
      (r = 0 \<or> cmp (seq ! (r - 1)) v < 0)
    \<and> (r = length seq \<or> \<not> cmp (seq ! r) v < 0)
    \<and> binarySearch tr seq v cmp =
        (if r < length seq \<and> tr (seq ! r) \<and> cmp (seq ! r) v = 0 then of_nat r
         else if r = 0 then - 1
         else if r = length seq then of_nat (length seq)
         else of_nat r - 1 / 2)"
proof -
  define r where "r = nat (bs_loop seq v cmp (- 1) (int (length seq)))"
  have lr: "(- 1 :: int) < int (length seq)" by simp
  have b: "- 1 < bs_loop seq v cmp (- 1) (int (length seq))"
    "bs_loop seq v cmp (- 1) (int (length seq)) \<le> int (length seq)"
    using bs_loop_bounds[OF lr, of seq v cmp] by simp_all
  have ri: "bs_loop seq v cmp (- 1) (int (length seq)) = int r" using b by (simp add: r_def)
  have rl: "r \<le> length seq" using b by (simp add: r_def)
  have bd: "(0 < int r \<longrightarrow> cmp (seq ! nat (int r - 1)) v < 0)
          \<and> (int r < int (length seq) \<longrightarrow> \<not> cmp (seq ! nat (int r)) v < 0)"
    unfolding ri[symmetric] by (rule bs_loop_boundary) simp_all
  have lo: "r = 0 \<or> cmp (seq ! (r - 1)) v < 0"
  proof (cases "r = 0")
    case True then show ?thesis by simp
  next
    case False
    then have "nat (int r - 1) = r - 1" by simp
    then show ?thesis using bd False by simp
  qed
  have hi: "r = length seq \<or> \<not> cmp (seq ! r) v < 0"
    using bd rl by auto
  have val: "binarySearch tr seq v cmp =
        (if r < length seq \<and> tr (seq ! r) \<and> cmp (seq ! r) v = 0 then of_nat r
         else if r = 0 then - 1
         else if r = length seq then of_nat (length seq)
         else of_nat r - 1 / 2)"
  proof (cases "r < length seq \<and> tr (seq ! r) \<and> cmp (seq ! r) v = 0")
    case True
    then have "binarySearch tr seq v cmp = of_nat r" using bs_found[where tr = tr, OF ri] by blast
    then show ?thesis using True by simp
  next
    case False
    from bs_notfound[where tr = tr, OF ri False] have
      "binarySearch tr seq v cmp =
         (if r = 0 then - 1 else if r = length seq then of_nat (length seq) else of_nat r - 1 / 2)"
      unfolding half_below_zero half_above_last[OF rl] .
    moreover have "(if r < length seq \<and> tr (seq ! r) \<and> cmp (seq ! r) v = 0 then of_nat r
         else if r = 0 then - 1
         else if r = length seq then of_nat (length seq)
         else of_nat r - 1 / 2) =
         (if r = 0 then - 1 else if r = length seq then of_nat (length seq) else of_nat r - 1 / 2 :: rat)"
      using False by (simp only: if_False)
    ultimately show ?thesis by simp
  qed
  show ?thesis using rl lo hi val by blast
qed

lemma binarySearch_range:
  shows "- 1 \<le> binarySearch tr seq v cmp" and "binarySearch tr seq v cmp \<le> of_nat (length seq)"
proof -
  from binarySearch_boundary[where seq = seq and tr = tr and cmp = cmp and v = v] obtain r where
    rl: "r \<le> length seq"
    and val: "binarySearch tr seq v cmp =
        (if r < length seq \<and> tr (seq ! r) \<and> cmp (seq ! r) v = 0 then of_nat r
         else if r = 0 then - 1
         else if r = length seq then of_nat (length seq)
         else of_nat r - 1 / 2)"
    by blast
  have r0: "(0 :: rat) \<le> of_nat r" by simp
  have r1: "(of_nat r :: rat) \<le> of_nat (length seq)" using rl by simp
  consider "binarySearch tr seq v cmp = of_nat r" | "binarySearch tr seq v cmp = - 1"
    | "binarySearch tr seq v cmp = of_nat (length seq)"
    | "binarySearch tr seq v cmp = of_nat r - 1 / 2" "r \<noteq> 0"
    using val by metis
  then have "- 1 \<le> binarySearch tr seq v cmp \<and> binarySearch tr seq v cmp \<le> of_nat (length seq)"
  proof cases
    case 1 then show ?thesis using r0 r1 by simp
  next
    case 2 then show ?thesis by simp
  next
    case 3 then show ?thesis by simp
  next
    case 4
    then have "(1 :: rat) \<le> of_nat r" by (simp add: Suc_leI)
    then show ?thesis unfolding 4(1) using r1 by simp
  qed
  then show "- 1 \<le> binarySearch tr seq v cmp" and "binarySearch tr seq v cmp \<le> of_nat (length seq)"
    by simp_all
qed

text \<open>
  Unconditionally, the search ends at an index \<open>r\<close> with the element before it (if any)
  below the probe and the element at it (if any) not below, and returns \<open>r\<close> when that
  element is truthy and compares equal, and the clamped \<open>r - 1/2\<close> otherwise
  (\<open>binarySearch_boundary\<close>); the result lies in \<open>[-1, length]\<close> (\<open>binarySearch_range\<close>).
\<close>




section \<open>An index after the insertion of an absent value\<close>

text \<open>
  Claim C1. After every sequence of inserts, updates and removes every index is to pass
  \<open>validateIndex\<close>. With an index on \<open>c\<close>, inserting \<open>{c: 5}\<close> and then a row whose
  \<open>c\<close> is \<open>undefined\<close> leaves a table of two rows whose index fails the validation:
  the walk of \<open>mergeIndex\<close>, which compares with \<open><\<close>, puts the new entry first and
  adds its size to the subtotal of the entry of \<open>5\<close>; the sort of \<open>mergeTotals\<close>
  then moves it last, and the subtotals stay as they were.
\<close>

theorem validateIndex_fails_after_absent_value:
  "bindE absent_after_five dt_getCount = Inr 2
   \<and> bindE absent_after_five dt_validateIndex = Inl (Error ''Subtotal was not correct'')"
  by code_simp

section \<open>update and the changed columns\<close>

text \<open>
  Claim C3. An update of unchanged rows is to do nothing, and an update that changes
  the columns \<open>S\<close> is to remove and re-add the rows in exactly the indexes with a column
  in \<open>S\<close>. In a table whose indexed column is named \<open>a$$\<close>, the generated
  \<open>markChangedColumns\<close> compares the property \<open>a$\<close>: the update of the value \<open>1\<close> to
  \<open>2\<close> is taken for no change, the index is not touched and the table still answers
  \<open>1\<close>. And on a host that does not supply \<open>any\<close>, an update that changes an indexed
  table raises a TypeError at the first index.
\<close>

theorem update_misses_changed_column:
  "returned dollar_table = Inr [\<lparr> cells = [(''a$$'', Num 1)], dollar = Some (Handle 0 0) \<rparr>]
   \<and> bindE dollar_updated dt_getRows = Inr [\<lparr> cells = [(''a$$'', Num 1)], dollar = Some (Handle 0 0) \<rparr>]
   \<and> dollar_index_after =
       Inr [([Entry (Num 1) (Rows [\<lparr> cells = [(''a$$'', Num 1)], dollar = Some (Handle 0 0) \<rparr>]) 1 1], 1)]
   \<and> raised update_without_any = Some TypeError"
  by code_simp

section \<open>between on a full scan\<close>

text \<open>
  Claim C6. A \<open>between\<close> query is to return exactly the rows whose value lies in the
  closed range, by an index or by a full scan. On the table without an index that holds
  \<open>{c: 5}\<close>, the query \<open>c between Range(1, 10)\<close> returns no row, whatever
  \<open>computeCost\<close> is: the filter calls \<open>Range.include\<close> through \<open>bind\<close>, whose wrapper
  returns nothing. The row is in the range, and the query \<open>c >= 1\<close> finds it.
\<close>

theorem between_scan_returns_nothing:
  "between_query computeCost = Inr []
   \<and> Range_include 1 10 (Num 5) = Bool True
   \<and> at_least_query computeCost = Inr [\<lparr> cells = [(''c'', Num 5)], dollar = Some (Handle 0 0) \<rparr>]"
  by code_simp

section \<open>A dropped table\<close>

lemma dropped_operations_fail:
  assumes "\<not> active t"
  shows "dt_getCount t = Inl (Error ''Table has been dropped'')"
    and "dt_getRows t = Inl (Error ''Table has been dropped'')"
    and "dt_insert engine t a = Inl (Error ''Table has been dropped'')"
    and "dt_update engine any t a = Inl (Error ''Table has been dropped'')"
    and "dt_remove engine t a = Inl (Error ''Table has been dropped'')"
    and "dt_findWhere t c = Inl (Error ''Table has been dropped'')"
    and "query_and t criteria c = Inl (Error ''Table has been dropped'')"
    and "query_getRows computeCost t criteria = Inl (Error ''Table has been dropped'')"
    and "dt_index engine t names = Inl (Error ''Table has been dropped'')"
    and "dt_validateIndex t = Inl (Error ''Table has been dropped'')"
    and "dt_paranoia t enable = Inl (Error ''Table has been dropped'')"
    and "dt_verbose t enable = Inl (Error ''Table has been dropped'')"
    and "dt_drop t = Inl (Error ''Table has been dropped'')"
  using assms
  by (simp_all add: dt_getCount_def dt_getRows_def dt_insert_def dt_update_def dt_remove_def
      dt_findWhere_def query_and_def query_getRows_def dt_index_def dt_validateIndex_def
      dt_paranoia_def dt_verbose_def dt_drop_def check_active_def bindE_def)

text \<open>
  Claim C7. After \<open>drop\<close> every operation on the table is to fail with the error of a
  dropped table. All operations that call \<open>active\<close> first do
  (\<open>dropped_operations_fail\<close>); \<open>index()\<close> without an argument returns before that
  call, and on the dropped table still lists the columns of its indexes.
\<close>

theorem index_list_survives_drop:
  "bindE dropped_table dt_index_list = Inr [[''c'']]
   \<and> bindE dropped_table dt_getCount = Inl (Error ''Table has been dropped'')"
  by code_simp

section \<open>insert of a row that is already in the table\<close>

text \<open>
  Claim C8. A row that already carries a \<open>$\<close> is to be ignored by \<open>insert\<close>, the call
  completing with the clones of the other rows. The clone returned by a first insert,
  inserted again in a batch with a new row, makes the call raise a TypeError: the
  collected array holds \<open>undefined\<close> at the place of the ignored row, and \<open>clone\<close> (or
  the first index) reads a property of it.
\<close>

theorem reinsert_raises_TypeError:
  "returned plain_five = Inr [\<lparr> cells = [(''c'', Num 5)], dollar = Some (Handle 0 0) \<rparr>]
   \<and> raised reinsert_in_batch = Some TypeError"
  by code_simp

section \<open>The planner keeps the first cheapest candidate\<close>


lemma bindE_Inl: "bindE (Inl e) f = Inl e"
  by (simp add: bindE_def)

lemma num_gt_trans: "num_gt a b \<Longrightarrow> num_gt b c \<Longrightarrow> num_gt a c"
  by (cases a; cases b; cases c) (auto simp: num_gt_def)

lemma num_gt_irrefl: "\<not> num_gt a a"
  by (cases a) (auto simp: num_gt_def)

lemma num_gt_asym: "num_gt a b \<Longrightarrow> \<not> num_gt b a"
  using num_gt_trans num_gt_irrefl by blast

lemma num_eq_eq: "num_eq a b \<Longrightarrow> a = b"
  by (cases a; cases b) auto

lemma collectE_Cons_Inr:
  assumes "collectE f (x # xs) = Inr ys"
  obtains y ys' where "f x = Inr y" "collectE f xs = Inr ys'" "ys = y # ys'"
  using assms by (auto simp: bindE_def split: sum.splits)

lemma collectE_length: "collectE f xs = Inr ys \<Longrightarrow> length ys = length xs"
  by (induction xs arbitrary: ys) (auto simp: bindE_def split: sum.splits)

lemma choose_plan_first_minimum:
  assumes "collectE (\<lambda>ix. cc ix criteria) ixs = Inr plans"
  shows "\<exists>k\<le>length plans.
      choose_plan cc criteria best ixs = Inr ((best # plans) ! k)
      \<and> (k = 0 \<or> num_gt (cost best) (cost ((best # plans) ! k)))
      \<and> (\<forall>q\<in>set (best # plans). \<not> num_gt (cost ((best # plans) ! k)) (cost q))
      \<and> (\<forall>j<k. \<not> num_eq (cost ((best # plans) ! j)) (cost ((best # plans) ! k)))"
  using assms
proof (induction ixs arbitrary: best plans)
  case Nil
  then have "plans = []" by simp
  then show ?case by (auto simp: num_gt_irrefl)
next
  case (Cons ix ixs)
  from Cons.prems obtain thisCase rest where
    tc: "cc ix criteria = Inr thisCase" and rest: "collectE (\<lambda>ix. cc ix criteria) ixs = Inr rest"
    and plans: "plans = thisCase # rest"
    by (rule collectE_Cons_Inr)
  define best' where "best' = (if num_gt (cost best) (cost thisCase) then thisCase else best)"
  have step: "choose_plan cc criteria best (ix # ixs) = choose_plan cc criteria best' ixs"
    by (simp add: tc bindE_def best'_def)
  from Cons.IH[OF rest, of best'] obtain k where
    k: "k \<le> length rest"
    and res: "choose_plan cc criteria best' ixs = Inr ((best' # rest) ! k)"
    and low: "k = 0 \<or> num_gt (cost best') (cost ((best' # rest) ! k))"
    and minimal: "\<forall>q\<in>set (best' # rest). \<not> num_gt (cost ((best' # rest) ! k)) (cost q)"
    and first: "\<forall>j<k. \<not> num_eq (cost ((best' # rest) ! j)) (cost ((best' # rest) ! k))"
    by blast
  define p where "p = (best' # rest) ! k"
  have sel: "choose_plan cc criteria best (ix # ixs) = Inr p"
    unfolding step res p_def ..
  have low': "k = 0 \<or> num_gt (cost best') (cost p)"
    using low unfolding p_def .
  have minimal': "\<forall>q\<in>set (best' # rest). \<not> num_gt (cost p) (cost q)"
    using minimal unfolding p_def .
  have first': "\<forall>j<k. \<not> num_eq (cost ((best' # rest) ! j)) (cost p)"
    using first unfolding p_def .
  have p0: "k = 0 \<Longrightarrow> p = best'" by (simp add: p_def)
  have pS: "(best' # rest) ! k = p" by (simp add: p_def)
  show ?case
  proof (cases "num_gt (cost best) (cost thisCase)")
    case True
    then have b: "best' = thisCase" by (simp add: best'_def)
    have pk: "(best # plans) ! Suc k = p" using pS by (simp add: plans b)
    have gt: "num_gt (cost best) (cost p)"
    proof (cases "k = 0")
      case True
      then show ?thesis using \<open>num_gt (cost best) (cost thisCase)\<close> p0 by (simp add: b)
    next
      case False
      then have "num_gt (cost thisCase) (cost p)" using low' by (simp add: b)
      with \<open>num_gt (cost best) (cost thisCase)\<close> show ?thesis by (rule num_gt_trans)
    qed
    have m: "\<forall>q\<in>set (best # plans). \<not> num_gt (cost p) (cost q)"
      using minimal' num_gt_asym[OF gt] by (auto simp: plans b)
    have f: "\<forall>j<Suc k. \<not> num_eq (cost ((best # plans) ! j)) (cost p)"
    proof (intro allI impI)
      fix j assume j: "j < Suc k"
      show "\<not> num_eq (cost ((best # plans) ! j)) (cost p)"
      proof (cases j)
        case 0
        show ?thesis
        proof
          assume "num_eq (cost ((best # plans) ! j)) (cost p)"
          then have "cost best = cost p" using 0 by (auto dest: num_eq_eq)
          with gt show False by (simp add: num_gt_irrefl)
        qed
      next
        case (Suc j')
        then have "j' < k" using j by simp
        with first' have "\<not> num_eq (cost ((best' # rest) ! j')) (cost p)" by blast
        then show ?thesis by (simp add: Suc plans b)
      qed
    qed
    show ?thesis
    proof (intro exI[of _ "Suc k"] conjI)
      show "Suc k \<le> length plans" using k by (simp add: plans)
      show "choose_plan cc criteria best (ix # ixs) = Inr ((best # plans) ! Suc k)"
        unfolding pk by (rule sel)
      show "Suc k = 0 \<or> num_gt (cost best) (cost ((best # plans) ! Suc k))"
        unfolding pk using gt by simp
      show "\<forall>q\<in>set (best # plans). \<not> num_gt (cost ((best # plans) ! Suc k)) (cost q)"
        unfolding pk by (rule m)
      show "\<forall>j<Suc k. \<not> num_eq (cost ((best # plans) ! j)) (cost ((best # plans) ! Suc k))"
        unfolding pk by (rule f)
    qed
  next
    case False
    then have b: "best' = best" by (simp add: best'_def)
    show ?thesis
    proof (cases k)
      case 0
      have pb: "p = best" using p0 0 by (simp add: b)
      have pk: "(best # plans) ! 0 = p" by (simp add: pb)
      have m: "\<forall>q\<in>set (best # plans). \<not> num_gt (cost p) (cost q)"
        using minimal' False by (auto simp: plans b pb)
      show ?thesis
      proof (intro exI[of _ 0] conjI)
        show "0 \<le> length plans" by simp
        show "choose_plan cc criteria best (ix # ixs) = Inr ((best # plans) ! 0)"
          unfolding pk by (rule sel)
        show "0 = 0 \<or> num_gt (cost best) (cost ((best # plans) ! 0))" by simp
        show "\<forall>q\<in>set (best # plans). \<not> num_gt (cost ((best # plans) ! 0)) (cost q)"
          unfolding pk by (rule m)
        show "\<forall>j<0. \<not> num_eq (cost ((best # plans) ! j)) (cost ((best # plans) ! 0))" by simp
      qed
    next
      case (Suc n)
      have "rest ! n = p" using pS by (simp add: Suc)
      then have pk: "(best # plans) ! Suc k = p" by (simp add: plans Suc)
      have gt: "num_gt (cost best) (cost p)" using low' by (simp add: b Suc)
      have nt: "\<not> num_gt (cost p) (cost thisCase)"
      proof
        assume "num_gt (cost p) (cost thisCase)"
        with gt have "num_gt (cost best) (cost thisCase)" by (rule num_gt_trans)
        with False show False by simp
      qed
      have m: "\<forall>q\<in>set (best # plans). \<not> num_gt (cost p) (cost q)"
        using minimal' nt by (auto simp: plans b)
      have f: "\<forall>j<Suc k. \<not> num_eq (cost ((best # plans) ! j)) (cost p)"
      proof (intro allI impI)
        fix j assume j: "j < Suc k"
        show "\<not> num_eq (cost ((best # plans) ! j)) (cost p)"
        proof (cases j)
          case 0
          show ?thesis
          proof
            assume "num_eq (cost ((best # plans) ! j)) (cost p)"
            then have "cost best = cost p" using 0 by (auto dest: num_eq_eq)
            with gt show False by (simp add: num_gt_irrefl)
          qed
        next
          case (Suc j')
          show ?thesis
          proof (cases j')
            case 0
            show ?thesis
            proof
              assume "num_eq (cost ((best # plans) ! j)) (cost p)"
              then have "cost thisCase = cost p" using 0 \<open>j = Suc j'\<close> by (auto simp: plans dest: num_eq_eq)
              with gt False show False by simp
            qed
          next
            case (Suc j'')
            then have "Suc j'' < k" using j \<open>j = Suc j'\<close> by simp
            with first' have "\<not> num_eq (cost ((best' # rest) ! Suc j'')) (cost p)" by blast
            then show ?thesis by (simp add: Suc \<open>j = Suc j'\<close> plans b)
          qed
        qed
      qed
      show ?thesis
      proof (intro exI[of _ "Suc k"] conjI)
        show "Suc k \<le> length plans" using k by (simp add: plans)
        show "choose_plan cc criteria best (ix # ixs) = Inr ((best # plans) ! Suc k)"
          unfolding pk by (rule sel)
        show "Suc k = 0 \<or> num_gt (cost best) (cost ((best # plans) ! Suc k))"
          unfolding pk using gt by simp
        show "\<forall>q\<in>set (best # plans). \<not> num_gt (cost ((best # plans) ! Suc k)) (cost q)"
          unfolding pk by (rule m)
        show "\<forall>j<Suc k. \<not> num_eq (cost ((best # plans) ! j)) (cost ((best # plans) ! Suc k))"
          unfolding pk by (rule f)
      qed
    qed
  qed
qed

lemma calculateSingleRowCriteriaCost_sum:
  "calculateSingleRowCriteriaCost criteria = sum_list (map spec_singleRowCost criteria)"
proof -
  have "foldl (\<lambda>cost c. case c of Between _ _ _ \<Rightarrow> cost + 1 | In _ xs \<Rightarrow> cost + int (length xs) - 1
                          | Compare _ _ _ \<Rightarrow> cost) a cs
        = a - int (length cs) + sum_list (map spec_singleRowCost cs)" for a cs
  proof (induction cs arbitrary: a)
    case Nil show ?case by simp
  next
    case (Cons c cs) show ?case by (cases c) (simp_all add: Cons.IH)
  qed
  then show ?thesis by (simp add: calculateSingleRowCriteriaCost_def)
qed

text \<open>
  Claim C4. \<open>plans\<close> are the plans that \<open>computeCost\<close> returns for the indexes of the
  table, in their order (the hypothesis says that no call throws; \<open>getRows\<close> then selects
  a plan). The plan selected is one of the candidates \<open>worstCase # plans\<close>, at a position
  \<open>k\<close>: its cost does not exceed the cost of the full scan, which is the number of rows
  times the sum of the single-row costs of the criteria; it is the full scan itself
  (\<open>k = 0\<close>) unless its cost is strictly lower; no candidate is strictly cheaper; and no
  candidate seeded before it has the same cost, so a tie keeps the earlier one.
  Comparisons are the language's: none holds of \<open>NaN\<close>.
\<close>

theorem planner_keeps_baseline_unless_cheaper:
  assumes "collectE (\<lambda>ix. computeCost ix criteria) (indicies t) = Inr plans"
  shows "(\<exists>k\<le>length plans.
            select_plan computeCost t criteria = Inr ((worstCase t criteria # plans) ! k)
            \<and> \<not> num_gt (cost ((worstCase t criteria # plans) ! k)) (cost (worstCase t criteria))
            \<and> (k = 0 \<or> num_gt (cost (worstCase t criteria)) (cost ((worstCase t criteria # plans) ! k)))
            \<and> (\<forall>q\<in>set (worstCase t criteria # plans).
                  \<not> num_gt (cost ((worstCase t criteria # plans) ! k)) (cost q))
            \<and> (\<forall>j<k. \<not> num_eq (cost ((worstCase t criteria # plans) ! j))
                              (cost ((worstCase t criteria # plans) ! k))))
       \<and> cost (worstCase t criteria) =
           Fin (of_int (int (length (rows t)) * sum_list (map spec_singleRowCost criteria)))"
proof -
  from choose_plan_first_minimum[where cc = computeCost and criteria = criteria
      and ixs = "indicies t" and plans = plans and best = "worstCase t criteria", OF assms]
  obtain k where
    k: "k \<le> length plans"
    and sel: "choose_plan computeCost criteria (worstCase t criteria) (indicies t)
               = Inr ((worstCase t criteria # plans) ! k)"
    and low: "k = 0 \<or> num_gt (cost (worstCase t criteria)) (cost ((worstCase t criteria # plans) ! k))"
    and minimal: "\<forall>q\<in>set (worstCase t criteria # plans).
                  \<not> num_gt (cost ((worstCase t criteria # plans) ! k)) (cost q)"
    and first: "\<forall>j<k. \<not> num_eq (cost ((worstCase t criteria # plans) ! j))
                              (cost ((worstCase t criteria # plans) ! k))"
    by blast
  have base: "\<not> num_gt (cost ((worstCase t criteria # plans) ! k)) (cost (worstCase t criteria))"
    using minimal by simp
  have sel': "select_plan computeCost t criteria = Inr ((worstCase t criteria # plans) ! k)"
    using sel by (simp add: select_plan_def)
  have c: "cost (worstCase t criteria) =
           Fin (of_int (int (length (rows t)) * sum_list (map spec_singleRowCost criteria)))"
    by (simp add: worstCase_def calculateSingleRowCriteriaCost_sum)
  from k sel' base low minimal first have
    "\<exists>k\<le>length plans.
            select_plan computeCost t criteria = Inr ((worstCase t criteria # plans) ! k)
            \<and> \<not> num_gt (cost ((worstCase t criteria # plans) ! k)) (cost (worstCase t criteria))
            \<and> (k = 0 \<or> num_gt (cost (worstCase t criteria)) (cost ((worstCase t criteria # plans) ! k)))
            \<and> (\<forall>q\<in>set (worstCase t criteria # plans).
                  \<not> num_gt (cost ((worstCase t criteria # plans) ! k)) (cost q))
            \<and> (\<forall>j<k. \<not> num_eq (cost ((worstCase t criteria # plans) ! j))
                              (cost ((worstCase t criteria # plans) ! k)))"
    by blast
  with c show ?thesis by (rule conjI[rotated])
qed

theorem planner_keeps_baseline_unless_cheaper_witness:
  "raised (collectE (\<lambda>ix. sample_cost ix [Between ''c'' 1 2]) (indicies sample_table)) = None
   \<and> cost (worstCase sample_table [Between ''c'' 1 2]) = Fin 2
   \<and> map_sum id cost (select_plan sample_cost sample_table [Between ''c'' 1 2]) = Inr (Fin 1)"
proof -
  obtain plans where h: "collectE (\<lambda>ix. sample_cost ix [Between ''c'' 1 2]) (indicies sample_table) = Inr plans"
    by (simp add: sample_table_def sample_cost_def bindE_def)
  from planner_keeps_baseline_unless_cheaper[where computeCost = sample_cost
      and criteria = "[Between ''c'' 1 2]" and t = sample_table and plans = plans, OF h]
  have "cost (worstCase sample_table [Between ''c'' 1 2]) =
      Fin (of_int (int (length (rows sample_table)) * sum_list (map spec_singleRowCost [Between ''c'' 1 2])))"
    by blast
  also have "\<dots> = Fin 2" by code_simp
  finally have c: "cost (worstCase sample_table [Between ''c'' 1 2]) = Fin 2" .
  have r: "raised (collectE (\<lambda>ix. sample_cost ix [Between ''c'' 1 2]) (indicies sample_table)) = None"
    by code_simp
  have s: "map_sum id cost (select_plan sample_cost sample_table [Between ''c'' 1 2]) = Inr (Fin 1)"
    by code_simp
  show ?thesis using r c s by simp
qed

section \<open>Every index of a table has columns\<close>

text \<open>
  \<open>checkColumnNames\<close> refuses an empty list of columns, so a table built by the
  constructor and changed by \<open>index\<close>, \<open>insert\<close>, \<open>remove\<close> and \<open>update\<close> is live and
  has no index without a column.
\<close>

lemma rowsAdded_columns: "rowsAdded engine i rs = Inr i' \<Longrightarrow> columns i' = columns i"
  by (auto simp: rowsAdded_def bindE_def split: sum.splits)

lemma rowsRemoved_columns: "rowsRemoved engine i rs = Inr i' \<Longrightarrow> columns i' = columns i"
  by (auto simp: rowsRemoved_def bindE_def split: sum.splits)

lemma DataTable_indexes_have_columns:
  "DataTable tid names = Inr t \<Longrightarrow> active t \<and> indexes_have_columns t"
  by (auto simp: DataTable_def bindE_def indexes_have_columns_def split: sum.splits)

lemma dt_index_indexes_have_columns:
  assumes "active t" and "indexes_have_columns t" and "dt_index engine t names = Inr (t', ix)"
  shows "active t' \<and> indexes_have_columns t'"
proof -
  from assms(3) have ne: "names \<noteq> []"
    by (auto simp: dt_index_def bindE_def checkColumnNames_def split: sum.splits if_splits)
  show ?thesis
    using assms ne
    by (auto simp: dt_index_def bindE_def indexes_have_columns_def new_Index_def
        dest!: rowsAdded_columns split: sum.splits option.splits)
qed

lemma each_index_columns:
  assumes "\<And>i i'. f i = Inr i' \<Longrightarrow> columns i' = columns i"
    and "each_index f ixs = Inr ixs'"
  shows "map columns ixs' = map columns ixs"
  using assms(2)
proof (induction ixs arbitrary: ixs')
  case Nil
  then show ?case by simp
next
  case (Cons i ixs)
  then show ?case
    by (auto simp: bindE_def split: sum.splits dest: assms(1))
qed


lemma insert_collect_indicies:
  "insert_collect t rs = (t', res) \<Longrightarrow> indicies t' = indicies t \<and> active t' = active t"
proof (induction rs arbitrary: t t' res)
  case Nil
  then show ?case by simp
next
  case (Cons r rs)
  show ?case
  proof (cases "dollar r = None")
    case True
    with Cons.prems obtain t1 res1 where
      "insert_collect (t\<lparr> rows := rows t @ [Some ((clone t r)\<lparr>dollar := Some (Handle (table_id t) (next_closure t))\<rparr>)],
                     closures := (closures t)(next_closure t :=
                                   Some \<lparr> cl_index = length (rows t), cl_row = (clone t r)\<lparr>dollar := Some (Handle (table_id t) (next_closure t))\<rparr> \<rparr>),
                     next_closure := Suc (next_closure t) \<rparr>) rs = (t', res1)"
      by (auto simp: Let_def split: prod.splits)
    from Cons.IH[OF this] show ?thesis by simp
  next
    case False
    with Cons.prems obtain res1 where "insert_collect t rs = (t', res1)"
      by (auto split: prod.splits)
    from Cons.IH[OF this] show ?thesis .
  qed
qed

lemma indexes_have_columns_cong:
  "map columns (indicies t') = map columns (indicies t) \<Longrightarrow>
   indexes_have_columns t \<Longrightarrow> indexes_have_columns t'"
proof -
  assume m: "map columns (indicies t') = map columns (indicies t)"
    and h: "indexes_have_columns t"
  have "list_all (\<lambda>c. c \<noteq> []) (map columns (indicies t))"
    using h by (simp add: indexes_have_columns_def list_all_iff)
  then have "list_all (\<lambda>c. c \<noteq> []) (map columns (indicies t'))"
    by (simp only: m)
  then show ?thesis by (simp add: indexes_have_columns_def list_all_iff)
qed

lemma dt_insert_indexes_have_columns:
  assumes "indexes_have_columns t" and "dt_insert engine t a = Inr (t', res)"
  shows "active t' \<and> indexes_have_columns t'"
proof -
  obtain t1 result where c: "insert_collect t (arg_rows a) = (t1, result)"
    by (cases "insert_collect t (arg_rows a)")
  have act: "active t" using assms(2)
    by (auto simp: dt_insert_def check_active_def bindE_def split: if_splits)
  from assms(2) obtain ixs where
    e: "each_index (\<lambda>i. rowsAdded engine i result) (indicies t1) = Inr ixs"
    and t': "t' = t1\<lparr>indicies := ixs\<rparr>"
    by (auto simp: dt_insert_def c bindE_def check_active_def split: sum.splits if_splits)
  have "map columns ixs = map columns (indicies t1)"
    using each_index_columns[where f = "\<lambda>i. rowsAdded engine i result", OF rowsAdded_columns e] .
  then have m: "map columns (indicies t') = map columns (indicies t)"
    using insert_collect_indicies[OF c] by (simp add: t')
  have "active t'" using insert_collect_indicies[OF c] act by (simp add: t')
  with indexes_have_columns_cong[OF m assms(1)] show ?thesis by simp
qed


lemma remove_row_indicies:
  "remove_row t r = Inr t' \<Longrightarrow> indicies t' = indicies t \<and> active t' = active t"
  by (auto simp: remove_row_def bindE_def split: sum.splits if_splits option.splits)

lemma foldE_remove_row_indicies:
  "foldE remove_row t rs = Inr t' \<Longrightarrow> indicies t' = indicies t \<and> active t' = active t"
proof (induction rs arbitrary: t)
  case Nil
  then show ?case by simp
next
  case (Cons r rs)
  from Cons.prems obtain t1 where a: "remove_row t r = Inr t1" and b: "foldE remove_row t1 rs = Inr t'"
    by (auto simp: bindE_def split: sum.splits)
  from Cons.IH[OF b] remove_row_indicies[OF a] show ?case by simp
qed

lemma dt_remove_indexes_have_columns:
  assumes "indexes_have_columns t" and "dt_remove engine t a = Inr t'"
  shows "active t' \<and> indexes_have_columns t'"
proof -
  have act: "active t" using assms(2)
    by (auto simp: dt_remove_def check_active_def bindE_def split: if_splits)
  from assms(2) obtain origRows ixs where
    e: "each_index (\<lambda>i. rowsRemoved engine i (map Some origRows)) (indicies t) = Inr ixs"
    and f: "foldE remove_row (t\<lparr>indicies := ixs\<rparr>) origRows = Inr t'"
    by (auto simp: dt_remove_def bindE_def check_active_def split: sum.splits if_splits)
  have "map columns ixs = map columns (indicies t)"
    using each_index_columns[where f = "\<lambda>i. rowsRemoved engine i (map Some origRows)", OF rowsRemoved_columns e] .
  then have m: "map columns (indicies t') = map columns (indicies t)"
    using foldE_remove_row_indicies[OF f] by simp
  have "active t'" using foldE_remove_row_indicies[OF f] act by simp
  with indexes_have_columns_cong[OF m assms(1)] show ?thesis by simp
qed


lemma update_index_columns:
  "update_index engine any t cc old new i = Inr i' \<Longrightarrow> columns i' = columns i"
  by (auto simp: update_index_def bindE_def split: option.splits if_splits sum.splits
      dest!: rowsAdded_columns rowsRemoved_columns)

lemma update_row_indicies:
  "update_row t r = Inr t' \<Longrightarrow> indicies t' = indicies t \<and> active t' = active t"
  by (auto simp: update_row_def bindE_def split: sum.splits option.splits)

lemma foldE_update_row_indicies:
  "foldE update_row t rs = Inr t' \<Longrightarrow> indicies t' = indicies t \<and> active t' = active t"
proof (induction rs arbitrary: t)
  case Nil
  then show ?case by simp
next
  case (Cons r rs)
  from Cons.prems obtain t1 where a: "update_row t r = Inr t1" and b: "foldE update_row t1 rs = Inr t'"
    by (auto simp: bindE_def split: sum.splits)
  from Cons.IH[OF b] update_row_indicies[OF a] show ?case by simp
qed

lemma dt_update_indexes_have_columns:
  assumes "indexes_have_columns t" and "dt_update engine any t a = Inr t'"
  shows "active t' \<and> indexes_have_columns t'"
proof -
  have act: "active t" using assms(2)
    by (auto simp: dt_update_def check_active_def bindE_def split: if_splits)
  from assms(2) consider "t' = t"
    | changedRows changedColumns oldRows ixs where
      "each_index (update_index engine any t changedColumns oldRows changedRows) (indicies t) = Inr ixs"
      "foldE update_row (t\<lparr>indicies := ixs\<rparr>) changedRows = Inr t'"
    by (auto simp: dt_update_def bindE_def check_active_def split: sum.splits if_splits prod.splits)
  then show ?thesis
  proof cases
    case 1
    then show ?thesis using act assms(1) by simp
  next
    case 2
    have "map columns ixs = map columns (indicies t)"
      using each_index_columns[where f = "update_index engine any t changedColumns oldRows changedRows",
          OF update_index_columns 2(1)] .
    then have m: "map columns (indicies t') = map columns (indicies t)"
      using foldE_update_row_indicies[OF 2(2)] by simp
    have "active t'" using foldE_update_row_indicies[OF 2(2)] act by simp
    with indexes_have_columns_cong[OF m assms(1)] show ?thesis by simp
  qed
qed

section \<open>The sort of the engine\<close>

text \<open>
  Whatever the comparator, the sort of an engine rearranges the array: it gives every
  position once. That is all the statements below ask of \<open>engine\<close>; \<open>stable_sort\<close> is
  such an engine.
\<close>

lemma array_sort_mset:
  assumes "\<And>n cmp. mset (engine n cmp) = mset [0..<n]"
  shows "mset (array_sort engine cmp xs) = mset xs"
proof -
  have "mset (array_sort engine cmp xs) = image_mset (\<lambda>i. xs ! i) (mset [0..<length xs])"
    unfolding array_sort_def mset_map assms ..
  also have "\<dots> = mset (map (\<lambda>i. xs ! i) [0..<length xs])" by simp
  also have "\<dots> = mset xs" by (simp only: map_nth)
  finally show ?thesis .
qed

lemma array_sort_Nil:
  assumes "\<And>n cmp. mset (engine n cmp) = mset [0..<n]"
  shows "array_sort engine cmp [] = []"
  using array_sort_mset[where engine = engine and cmp = cmp and xs = "[]", OF assms] by simp





section \<open>remove of a row that is not wrapped in an array\<close>

lemma walk_remove_right_empty:
  "walk rowsRemoved_callbacks child out None ls [] = Inr (out @ ls)"
  by (induction ls arbitrary: out) (simp_all add: rowsRemoved_callbacks_def)

lemma mergeIndex_remove_nothing:
  "mergeIndex rowsRemoved_callbacks n left ([], 0) = Inr left"
proof -
  have "merge_level rowsRemoved_callbacks child left ([], 0) = Inr left" for child
    by (simp add: merge_level_def walk_remove_right_empty) (simp add: rowsRemoved_callbacks_def)
  then show ?thesis by (cases n) simp_all
qed

lemma buildIndex_rec_Nil:
  assumes "\<And>n cmp. mset (engine n cmp) = mset [0..<n]"
  shows "buildIndex_rec engine cols [] = ([], 0)"
  by (cases cols) (simp_all add: buildShallowIndex_def array_sort_Nil[OF assms] Let_def)

lemma rowsRemoved_nothing:
  assumes "\<And>n cmp. mset (engine n cmp) = mset [0..<n]" and "columns i \<noteq> []"
  shows "rowsRemoved engine i [] = Inr i"
  using assms(2)
  by (simp add: rowsRemoved_def buildIndex_def bindE_def buildIndex_rec_Nil[OF assms(1)]
      mergeIndex_remove_nothing)

lemma each_index_unchanged:
  "list_all (\<lambda>i. f i = Inr i) ixs \<Longrightarrow> each_index f ixs = Inr ixs"
  by (induction ixs) (simp_all add: bindE_def)

lemma sample_table_reached: "sample_run = Inr sample_table"
  by (simp add: sample_run_def sample_table_def sample_row_def DataTable_def checkColumnNames_def bindE_def valid_name_def
      name_start_def name_part_def is_digit_def object_prototype_keys_def dt_index_def check_active_def
      buildIndexSignature_def new_Index_def rowsAdded_def buildIndex_def buildShallowIndex_def
      array_sort_def stable_sort_def mergeIndex.simps merge_level_def rowsAdded_callbacks_def dt_insert_def
      arg_rows_def clone_def cell_def validate_if_paranoid_def clone_elem_def dt_paranoia_def last_opt_def
      sub_of_def Comparator_def subIndexComparator_def Let_def)

text \<open>
  A row object without a \<open>length\<close>, or whose \<open>length\<close> converts to \<open>0\<close>, is read as
  an empty list of arguments: on a live table whose indexes have columns the call then
  removes nothing, and returns after the validation of a table in paranoia mode.
\<close>

lemma remove_without_length_changes_nothing:
  assumes "\<And>n cmp. mset (engine n cmp) = mset [0..<n]"
    and "active t" and "indexes_have_columns t" and "apply_length r = 0"
  shows "dt_remove engine t (Single r) = bindE (validate_if_paranoid t) (\<lambda>u. Inr t)"
proof -
  have rs: "remove_arg_rows (Single r) = []"
    using assms(4) by (simp add: remove_arg_rows_def)
  have "list_all (\<lambda>i. rowsRemoved engine i [] = Inr i) (indicies t)"
    using assms(3) by (simp add: indexes_have_columns_def list_all_iff rowsRemoved_nothing[OF assms(1)])
  then have ix: "each_index (\<lambda>i. rowsRemoved engine i []) (indicies t) = Inr (indicies t)"
    by (rule each_index_unchanged)
  show ?thesis
    using assms(2) by (simp add: dt_remove_def check_active_def bindE_def rs ix)
qed

text \<open>
  Claim C9. \<open>remove\<close> of a single row object, not wrapped in an array, is to complete
  without error and to leave the table unchanged. Where \<open>insert\<close> and \<open>update\<close> wrap
  such an argument with \<open>newArray(rows)\<close>, \<open>remove\<close> calls
  \<open>newArray.apply(null, rows)\<close>, which reads the row object as a list of arguments.
  The clone of a row of a table whose column is named \<open>length\<close>, holding \<open>1\<close> there,
  then gives one argument, \<open>rows[0]\<close>, which is \<open>undefined\<close>, and the call raises a
  TypeError at \<open>r.$\<close>.
\<close>

theorem remove_unwrapped_row_raises_TypeError:
  "returned length_table = Inr [\<lparr> cells = [(''length'', Num 1)], dollar = Some (Handle 0 0) \<rparr>]
   \<and> raised remove_single_length = Some TypeError"
  by code_simp

section \<open>insert of a row that is not wrapped in an array\<close>

lemma merge_entries_add_total:
  assumes "\<forall>f a b. child = Some f \<longrightarrow> (\<exists>lv. f a b = Inr lv)"
  shows "\<exists>e. merge_entries (rowsAdded_callbacks engine) child leftEntry rightEntry = Inr e"
proof (cases child)
  case None
  then show ?thesis by (simp add: merge_entries_def)
next
  case (Some f)
  from assms Some obtain lv where
    "f (level_of (e_data leftEntry)) (level_of (e_data rightEntry)) = Inr lv" by blast
  then show ?thesis by (simp add: merge_entries_def Some)
qed

lemma processRight_add:
  "processRightSideEntry (rowsAdded_callbacks engine) prevL rightEntry =
     Inr (Some (Entry (e_value rightEntry) (e_data rightEntry) (e_size rightEntry)
                 (e_size rightEntry + (case prevL of None \<Rightarrow> 0 | Some p \<Rightarrow> e_subtotal p))))"
  by (simp add: rowsAdded_callbacks_def)

lemma walk_add_total:
  assumes "\<forall>f a b. child = Some f \<longrightarrow> (\<exists>lv. f a b = Inr lv)"
  shows "\<exists>out'. walk (rowsAdded_callbacks engine) child out prevR ls rs = Inr out'"
  using assms
proof (induction "rowsAdded_callbacks engine" child out prevR ls rs rule: walk.induct)
  case (1 child out prevR)
  show ?case by simp
next
  case (2 child out prevR leftEntry ls)
  then show ?case by simp
next
  case (3 child out prevR rightEntry rs)
  then show ?case by (simp add: processRight_add)
next
  case (4 child out prevR leftEntry ls rightEntry rs)
  show ?case
  proof (cases "js_eq (e_value leftEntry) (e_value rightEntry)")
    case True
    from merge_entries_add_total[OF "4.prems"]
    obtain merged where m: "merge_entries (rowsAdded_callbacks engine) child leftEntry rightEntry = Inr merged"
      by blast
    show ?thesis
    proof (cases "e_size merged = 0")
      case z: True
      from "4.hyps"(1)[OF True m z] "4.prems" show ?thesis using True m z by simp
    next
      case z: False
      from "4.hyps"(2)[OF True m z] "4.prems" show ?thesis using True m z by simp
    qed
  next
    case False
    show ?thesis
    proof (cases "js_lt (e_value leftEntry) (e_value rightEntry)")
      case lt: True
      from "4.hyps"(3)[OF False lt] "4.prems" show ?thesis using False lt by simp
    next
      case lt: False
      from "4.hyps"(5)[OF False lt processRight_add refl] "4.prems"
      show ?thesis using False lt by (simp add: processRight_add)
    qed
  qed
qed


lemma merge_level_add_total:
  assumes "\<forall>f a b. child = Some f \<longrightarrow> (\<exists>lv. f a b = Inr lv)"
  shows "\<exists>lv. merge_level (rowsAdded_callbacks engine) child left right = Inr lv"
proof -
  from walk_add_total[OF assms] obtain out where
    "walk (rowsAdded_callbacks engine) child [] None (fst left) (fst right) = Inr out" by blast
  then show ?thesis by (simp add: merge_level_def)
qed

lemma mergeIndex_add_total:
  "\<exists>lv. mergeIndex (rowsAdded_callbacks engine) n left right = Inr lv"
proof (induction n arbitrary: left right)
  case 0
  have "\<exists>lv. merge_level (rowsAdded_callbacks engine) None left right = Inr lv"
    by (rule merge_level_add_total) simp
  then show ?case by (simp only: mergeIndex.simps)
next
  case (Suc n)
  show ?case
  proof (cases "n = 0")
    case True
    have "\<exists>lv. merge_level (rowsAdded_callbacks engine) None left right = Inr lv"
      by (rule merge_level_add_total) simp
    then show ?thesis using True by simp
  next
    case False
    have "\<forall>f a b. Some (mergeIndex (rowsAdded_callbacks engine) n) = Some f \<longrightarrow> (\<exists>lv. f a b = Inr lv)"
      using Suc.IH by auto
    from merge_level_add_total[OF this]
    have "\<exists>lv. merge_level (rowsAdded_callbacks engine) (Some (mergeIndex (rowsAdded_callbacks engine) n)) left right = Inr lv" .
    then show ?thesis using False by (simp only: mergeIndex.simps if_False)
  qed
qed

lemma rowsAdded_total:
  assumes "columns i \<noteq> []"
  shows "\<exists>i'. rowsAdded engine i (map Some rs) = Inr i'"
proof -
  have th: "those (map Some rs) = Some rs" by (induction rs) simp_all
  obtain lv where
    "mergeIndex (rowsAdded_callbacks engine) (length (columns i)) (index i) (buildIndex_rec engine (columns i) rs) = Inr lv"
    using mergeIndex_add_total by blast
  then show ?thesis using assms by (simp add: rowsAdded_def buildIndex_def bindE_def th)
qed

lemma each_index_total:
  assumes "list_all (\<lambda>i. \<exists>i'. f i = Inr i') ixs"
  shows "\<exists>ixs'. each_index f ixs = Inr ixs' \<and> length ixs' = length ixs"
  using assms
proof (induction ixs)
  case Nil
  show ?case by simp
next
  case (Cons i ixs)
  then obtain i' ixs' where "f i = Inr i'" "each_index f ixs = Inr ixs'" "length ixs' = length ixs"
    by auto
  then show ?case by (simp add: bindE_def)
qed
























text \<open>
  An index that passes \<open>validateIndex\<close> has no entry of a size below \<open>1\<close>.
\<close>

lemma data_length_nonneg: "0 \<le> data_length d"
  by (cases d) simp_all

lemma check_entries_sizes:
  "check_entries nested st lastValue es = Inr x \<Longrightarrow>
   \<forall>e\<in>set es. 0 < e_size e \<and> (\<forall>chk. nested = Some chk \<longrightarrow> chk (level_of (e_data e)) = Inr ())"
proof (induction es arbitrary: st lastValue)
  case Nil
  then show ?case by simp
next
  case (Cons ix rest)
  from Cons.prems have pos: "0 < e_size ix"
    using data_length_nonneg[of "e_data ix"]
    by (auto split: if_splits)
  from Cons.prems have nest: "\<forall>chk. nested = Some chk \<longrightarrow> chk (level_of (e_data ix)) = Inr ()"
    by (auto simp: bindE_def split: if_splits option.splits sum.splits)
  from Cons.prems have "\<exists>st' lv' . check_entries nested st' lv' rest = Inr x"
    by (auto simp: bindE_def split: if_splits option.splits sum.splits)
  then obtain st' lv' where "check_entries nested st' lv' rest = Inr x" by blast
  from Cons.IH[OF this] pos nest show ?case by simp
qed

lemma check_level_sizes:
  assumes "check_level nested lv = Inr ()"
  shows "\<forall>e\<in>set (fst lv). 0 < e_size e \<and> (\<forall>chk. nested = Some chk \<longrightarrow> chk (level_of (e_data e)) = Inr ())"
proof -
  from assms obtain x where "check_entries nested 0 None (fst lv) = Inr x"
    by (auto simp: check_level_def bindE_def split: sum.splits)
  then show ?thesis by (rule check_entries_sizes)
qed

lemma check_sizes_positive:
  "cols \<noteq> [] \<Longrightarrow> check cols lv = Inr () \<Longrightarrow> list_all (sizes_positive (length cols - 1)) (fst lv)"
proof (induction cols arbitrary: lv)
  case Nil
  then show ?case by simp
next
  case (Cons c cs)
  show ?case
  proof (cases "cs = []")
    case True
    with Cons.prems have "check_level None lv = Inr ()" by simp
    from check_level_sizes[OF this] show ?thesis using True by (simp add: list_all_iff)
  next
    case False
    then obtain k where k: "length cs = Suc k" by (cases cs) auto
    from False Cons.prems have "check_level (Some (check cs)) lv = Inr ()" by simp
    from check_level_sizes[OF this] have
      e: "\<forall>e\<in>set (fst lv). 0 < e_size e \<and> check cs (level_of (e_data e)) = Inr ()" by simp
    have "sizes_positive (Suc k) e" if "e \<in> set (fst lv)" for e
    proof -
      from e that have "0 < e_size e" "check cs (level_of (e_data e)) = Inr ()" by simp_all
      with Cons.IH[OF False] k show ?thesis by simp
    qed
    then show ?thesis using k by (simp add: list_all_iff)
  qed
qed

lemma validate_each_all:
  "validate_each ixs = Inr () \<Longrightarrow> \<forall>i\<in>set ixs. Index_validateIndex i = Inr ()"
  by (induction ixs) (auto simp: bindE_def split: sum.splits)

lemma valid_index_sizes_positive:
  assumes "indexes_have_columns t" and "dt_validateIndex t = Inr ()"
  shows "index_sizes_positive t"
proof -
  from assms(2) have "validate_each (indicies t) = Inr ()"
    by (auto simp: dt_validateIndex_def bindE_def check_active_def split: if_splits)
  from validate_each_all[OF this] have v: "\<forall>i\<in>set (indicies t). check (columns i) (index i) = Inr ()"
    by (simp add: Index_validateIndex_def)
  show ?thesis
    unfolding index_sizes_positive_def list_all_iff
  proof
    fix i assume i: "i \<in> set (indicies t)"
    with assms(1) have "columns i \<noteq> []" by (simp add: indexes_have_columns_def list_all_iff)
    moreover from v i have "check (columns i) (index i) = Inr ()" by blast
    ultimately have "list_all (sizes_positive (length (columns i) - 1)) (fst (index i))"
      by (rule check_sizes_positive)
    then show "\<forall>e\<in>set (fst (index i)). sizes_positive (length (columns i) - 1) e"
      by (simp add: list_all_iff)
  qed
qed





end
